theory Spec2Isabelle
  imports Main
begin

section \<open>Upload files, field declarations and the request's file container\<close>

text \<open>
  The development follows \<^verbatim>\<open>files.ts\<close> (the decorators \<^verbatim>\<open>IsFile\<close>, \<^verbatim>\<open>IsFiles\<close> and
  \<^verbatim>\<open>UseMulter\<close> with its upload validator), its compiled form \<^verbatim>\<open>files.js\<close> (which
  also admits string MIME patterns), \<^verbatim>\<open>utils.ts\<close> (\<^verbatim>\<open>toSlug\<close>) and \<^verbatim>\<open>decorators.ts\<close>
  (\<^verbatim>\<open>AsyncResolver\<close>, \<^verbatim>\<open>IsEntity\<close>).

  An uploaded file is the object the multipart parser creates; the validator reads its
  \<^verbatim>\<open>originalname\<close>, \<^verbatim>\<open>mimetype\<close> and \<^verbatim>\<open>size\<close> (a byte count).
\<close>

record MulterFile =
  originalname :: string
  mimetype :: string
  file_size :: nat

text \<open>
  A \<^verbatim>\<open>RegExp\<close> object, as far as the validator uses it. \<open>search\<close> is the matching
  itself: started at an index of a text it gives the index where the match it finds ends,
  or nothing. \<open>advancing\<close> says that the expression carries the \<^verbatim>\<open>g\<close> or the \<^verbatim>\<open>y\<close>
  flag, and \<open>toString\<close> is the text of \<^verbatim>\<open>toString()\<close>. The property \<^verbatim>\<open>lastIndex\<close> of
  the object is kept apart, in a store (below).
\<close>

record regexp =
  search :: "nat \<Rightarrow> string \<Rightarrow> nat option"
  advancing :: bool
  toString :: string

text \<open>
  \<^verbatim>\<open>regex.test(s)\<close> for an object whose \<^verbatim>\<open>lastIndex\<close> is given: the result and the new
  \<^verbatim>\<open>lastIndex\<close>. With the \<^verbatim>\<open>g\<close> or \<^verbatim>\<open>y\<close> flag the matching starts at \<^verbatim>\<open>lastIndex\<close>,
  which becomes the end of the match, or 0 when there is none; without them it starts at 0
  and \<^verbatim>\<open>lastIndex\<close> is left alone.
\<close>

definition test :: "regexp \<Rightarrow> nat \<Rightarrow> string \<Rightarrow> bool \<times> nat" where
  "test regex lastIndex s =
     (if advancing regex then
        (if length s < lastIndex then (False, 0)
         else (case search regex lastIndex s of
                 None \<Rightarrow> (False, 0)
               | Some e \<Rightarrow> (True, e)))
      else
        (case search regex 0 s of
           None \<Rightarrow> (False, lastIndex)
         | Some e \<Rightarrow> (True, lastIndex)))"

text \<open>
  An expression matches a text when the matching, started at the beginning of the text,
  finds a match. This is the meaning of the expression, whatever its \<^verbatim>\<open>lastIndex\<close> is.
\<close>

definition matches :: "regexp \<Rightarrow> string \<Rightarrow> bool" where
  "matches regex s = (search regex 0 s \<noteq> None)"

text \<open>
  An entry of \<^verbatim>\<open>mimeTypes\<close> is a \<^verbatim>\<open>RegExp\<close> object or, in \<^verbatim>\<open>files.js\<close>, a string. An
  object is given by its identity (a number: the same object may be listed twice) and
  its expression. The constructor \<^verbatim>\<open>new RegExp(source)\<close> belongs to the language; a
  string entry comes with what the constructor makes of it: an expression without flags,
  or nothing when the constructor throws \<^verbatim>\<open>SyntaxError\<close>.
\<close>

datatype mime_pattern = Rx nat regexp | Str string "regexp option"

text \<open>The \<^verbatim>\<open>lastIndex\<close> of every \<^verbatim>\<open>RegExp\<close> object, by identity.\<close>

type_synonym rx_store = "nat \<Rightarrow> nat"

text \<open>
  \<^verbatim>\<open>FileFieldOptions\<close>: every property is optional (\<open>None\<close> is an absent property).
  The names are those of \<^verbatim>\<open>files.ts\<close>; \<^verbatim>\<open>files.js\<close> reads the first two as \<^verbatim>\<open>name\<close>
  and \<^verbatim>\<open>isRequired\<close> and is otherwise the same loop.
\<close>

record FileFieldOptions =
  fieldName :: "string option"
  required :: "bool option"
  maxSize :: "string option"
  minSize :: "string option"
  maxFiles :: "nat option"
  minFiles :: "nat option"
  mimeTypes :: "mime_pattern list option"

record FileFieldMetadata =
  propertyKey :: string
  isArray :: bool
  options :: FileFieldOptions

text \<open>
  A property of \<^verbatim>\<open>req.files\<close> holds the array of files the parser grouped under a field
  name, or, once the validator has written to it, a single file or \<^verbatim>\<open>undefined\<close>.
  The container is created without a prototype, so a name that was never written reads as
  \<^verbatim>\<open>undefined\<close>.
\<close>

datatype entry = Undefined | Single MulterFile | Files "MulterFile list"

type_synonym file_container = "string \<Rightarrow> entry option"

definition get_entry :: "file_container \<Rightarrow> string \<Rightarrow> entry" where
  "get_entry c k = (case c k of None \<Rightarrow> Undefined | Some e \<Rightarrow> e)"

text \<open>\<^verbatim>\<open>files.length\<close>: a number for an array, \<^verbatim>\<open>undefined\<close> (\<open>None\<close>) for a file object.\<close>

fun entry_length :: "entry \<Rightarrow> nat option" where
  "entry_length (Files fs) = Some (length fs)"
| "entry_length (Single f) = None"
| "entry_length Undefined = None"

text \<open>What the loop reads and writes: the container and the \<^verbatim>\<open>lastIndex\<close> store.\<close>

type_synonym state = "file_container \<times> rx_store"

text \<open>
  What the middleware does with a request: it calls \<^verbatim>\<open>next()\<close>, it calls
  \<^verbatim>\<open>next(new Error(message))\<close>, or an exception escapes from the callback.
  For one field or one file, \<open>Accepted\<close> means that no early return was taken.
\<close>

datatype exn = TypeError | SyntaxError

datatype outcome = Accepted | Rejected string | Threw exn

section \<open>Truthiness and text\<close>

text \<open>JavaScript truthiness of the optional properties the validator tests.\<close>

definition truthy_bool :: "bool option \<Rightarrow> bool" where
  "truthy_bool b = (b = Some True)"

definition truthy_string :: "string option \<Rightarrow> bool" where
  "truthy_string s = (case s of None \<Rightarrow> False | Some t \<Rightarrow> t \<noteq> [])"

definition truthy_number :: "nat option \<Rightarrow> bool" where
  "truthy_number n = (case n of None \<Rightarrow> False | Some k \<Rightarrow> k \<noteq> 0)"

text \<open>\<^verbatim>\<open>meta.options.fieldName || meta.propertyKey\<close>\<close>

definition field_name :: "FileFieldMetadata \<Rightarrow> string" where
  "field_name meta =
     (if truthy_string (fieldName (options meta))
      then (case fieldName (options meta) of Some n \<Rightarrow> n | None \<Rightarrow> propertyKey meta)
      else propertyKey meta)"

text \<open>The decimal text of a count, as a template literal prints it.\<close>

function show_nat :: "nat \<Rightarrow> string" where
  "show_nat n =
     (if n < 10 then [''0123456789'' ! n]
      else show_nat (n div 10) @ [''0123456789'' ! (n mod 10)])"
  by pat_completeness auto
termination
  by (relation "measure (\<lambda>n. n)") auto

declare show_nat.simps [simp del]

text \<open>\<^verbatim>\<open>Array.prototype.join\<close>\<close>

fun join :: "string \<Rightarrow> string list \<Rightarrow> string" where
  "join sep [] = []"
| "join sep [x] = x"
| "join sep (x # y # ys) = x @ sep @ join sep (y # ys)"

section \<open>Size bounds\<close>

text \<open>
  A JavaScript number, as far as the size checks need it: an integer or \<^verbatim>\<open>NaN\<close>.
  Every comparison with \<^verbatim>\<open>NaN\<close> is false.
\<close>

datatype number = Num int | NaN

fun num_less :: "nat \<Rightarrow> number \<Rightarrow> bool" where
  "num_less n (Num b) = (int n < b)"
| "num_less n NaN = False"

fun num_greater :: "nat \<Rightarrow> number \<Rightarrow> bool" where
  "num_greater n (Num b) = (int n > b)"
| "num_greater n NaN = False"

text \<open>
  \<^verbatim>\<open>parseFileSize(value: string | number)\<close>. The parser \<^verbatim>\<open>bytes\<close> is an imported
  package: it is a parameter here, giving an integer or \<^verbatim>\<open>null\<close> (\<open>None\<close>), and
  \<^verbatim>\<open>parseFloat(null)\<close> is \<^verbatim>\<open>NaN\<close>.
\<close>

definition parseFileSize :: "(string \<Rightarrow> int option) \<Rightarrow> string + number \<Rightarrow> number" where
  "parseFileSize bytes v =
     (case v of
        Inr n \<Rightarrow> n
      | Inl s \<Rightarrow> (case bytes s of None \<Rightarrow> NaN | Some b \<Rightarrow> Num b))"

section \<open>The checks on one file\<close>

definition check_minSize :: "(string \<Rightarrow> int option) \<Rightarrow> FileFieldOptions \<Rightarrow> MulterFile \<Rightarrow> outcome" where
  "check_minSize bytes opts f =
     (case minSize opts of
        None \<Rightarrow> Accepted
      | Some s \<Rightarrow>
          if s \<noteq> [] \<and> num_less (file_size f) (parseFileSize bytes (Inl s))
          then Rejected (''File '' @ originalname f @ '' is too small. Minimum size is '' @ s @ ''.'')
          else Accepted)"

definition check_maxSize :: "(string \<Rightarrow> int option) \<Rightarrow> FileFieldOptions \<Rightarrow> MulterFile \<Rightarrow> outcome" where
  "check_maxSize bytes opts f =
     (case maxSize opts of
        None \<Rightarrow> Accepted
      | Some s \<Rightarrow>
          if s \<noteq> [] \<and> num_greater (file_size f) (parseFileSize bytes (Inl s))
          then Rejected (''File '' @ originalname f @ '' is too large. Maximum size is '' @ s @ ''.'')
          else Accepted)"

text \<open>
  \<^verbatim>\<open>const regex = item instanceof RegExp ? item : new RegExp(item); return
  regex.test(file.mimetype)\<close>, as \<^verbatim>\<open>files.js\<close> has it (\<^verbatim>\<open>files.ts\<close> declares
  \<^verbatim>\<open>mimeTypes\<close> as \<^verbatim>\<open>RegExp[]\<close> and calls \<^verbatim>\<open>test\<close> on each item; on objects the two
  agree). An object is tested from its \<^verbatim>\<open>lastIndex\<close>, which the test may move; the
  expression made from a string is new at every call, so its \<^verbatim>\<open>lastIndex\<close> is 0.
\<close>

definition test_item :: "mime_pattern \<Rightarrow> string \<Rightarrow> rx_store \<Rightarrow> (exn + bool) \<times> rx_store" where
  "test_item item m li =
     (case item of
        Rx a regex \<Rightarrow> (case test regex (li a) m of (b, i) \<Rightarrow> (Inr b, li(a := i)))
      | Str src made \<Rightarrow>
          (case made of
             None \<Rightarrow> (Inl SyntaxError, li)
           | Some regex \<Rightarrow> (Inr (fst (test regex 0 m)), li)))"

text \<open>
  The expression that \<^verbatim>\<open>item instanceof RegExp ? item : new RegExp(item)\<close> gives for an
  entry, when the constructor does not throw.
\<close>

definition expression_of :: "mime_pattern \<Rightarrow> regexp option" where
  "expression_of item = (case item of Rx a regex \<Rightarrow> Some regex | Str src made \<Rightarrow> made)"

text \<open>\<^verbatim>\<open>mimeTypes.some(...)\<close>: left to right, stopping at the first item that tests true.\<close>

fun some_test :: "mime_pattern list \<Rightarrow> string \<Rightarrow> rx_store \<Rightarrow> (exn + bool) \<times> rx_store" where
  "some_test [] m li = (Inr False, li)"
| "some_test (item # items) m li =
     (case test_item item m li of
        (Inl x, li') \<Rightarrow> (Inl x, li')
      | (Inr True, li') \<Rightarrow> (Inr True, li')
      | (Inr False, li') \<Rightarrow> some_test items m li')"

text \<open>
  \<^verbatim>\<open>mimeTypes.map((item) => (item instanceof RegExp ? item.toString() : new
  RegExp(item).toString()))\<close>
\<close>

definition item_text :: "mime_pattern \<Rightarrow> exn + string" where
  "item_text item =
     (case item of
        Rx a regex \<Rightarrow> Inr (toString regex)
      | Str src made \<Rightarrow>
          (case made of None \<Rightarrow> Inl SyntaxError | Some regex \<Rightarrow> Inr (toString regex)))"

fun pattern_texts :: "mime_pattern list \<Rightarrow> exn + string list" where
  "pattern_texts [] = Inr []"
| "pattern_texts (item # items) =
     (case item_text item of
        Inl x \<Rightarrow> Inl x
      | Inr t \<Rightarrow>
          (case pattern_texts items of
             Inl x \<Rightarrow> Inl x
           | Inr ts \<Rightarrow> Inr (t # ts)))"

definition check_mimeTypes :: "FileFieldOptions \<Rightarrow> MulterFile \<Rightarrow> rx_store \<Rightarrow> rx_store \<times> outcome" where
  "check_mimeTypes opts f li =
     (case mimeTypes opts of
        None \<Rightarrow> (li, Accepted)
      | Some items \<Rightarrow>
          if items = [] then (li, Accepted)
          else (case some_test items (mimetype f) li of
                  (Inl x, li') \<Rightarrow> (li', Threw x)
                | (Inr True, li') \<Rightarrow> (li', Accepted)
                | (Inr False, li') \<Rightarrow>
                    (case pattern_texts items of
                       Inl x \<Rightarrow> (li', Threw x)
                     | Inr ts \<Rightarrow>
                         (li', Rejected (''File '' @ originalname f @ '' has invalid type (''
                                         @ mimetype f @ ''). Allowed: '' @ join '', '' ts @ ''.'')))))"

text \<open>The body of \<^verbatim>\<open>for (const file of files)\<close>: minimum size, maximum size, MIME type.\<close>

definition check_file ::
  "(string \<Rightarrow> int option) \<Rightarrow> FileFieldOptions \<Rightarrow> MulterFile \<Rightarrow> rx_store \<Rightarrow> rx_store \<times> outcome" where
  "check_file bytes opts f li =
     (case check_minSize bytes opts f of
        Accepted \<Rightarrow>
          (case check_maxSize bytes opts f of
             Accepted \<Rightarrow> check_mimeTypes opts f li
           | r \<Rightarrow> (li, r))
      | r \<Rightarrow> (li, r))"

fun check_files ::
  "(string \<Rightarrow> int option) \<Rightarrow> FileFieldOptions \<Rightarrow> MulterFile list \<Rightarrow> rx_store \<Rightarrow> rx_store \<times> outcome" where
  "check_files bytes opts [] li = (li, Accepted)"
| "check_files bytes opts (f # fs) li =
     (case check_file bytes opts f li of
        (li', Accepted) \<Rightarrow> check_files bytes opts fs li'
      | (li', r) \<Rightarrow> (li', r))"

text \<open>\<^verbatim>\<open>for (const file of files)\<close> on a value that is not an array: a file object is not iterable.\<close>

fun iterate_files ::
  "(string \<Rightarrow> int option) \<Rightarrow> FileFieldOptions \<Rightarrow> entry \<Rightarrow> rx_store \<Rightarrow> rx_store \<times> outcome" where
  "iterate_files bytes opts (Files fs) li = check_files bytes opts fs li"
| "iterate_files bytes opts (Single f) li = (li, Threw TypeError)"
| "iterate_files bytes opts Undefined li = (li, Threw TypeError)"

section \<open>The validation loop of \<^verbatim>\<open>UseMulter\<close>\<close>

text \<open>
  \<^verbatim>\<open>meta.options.minFiles && files.length < meta.options.minFiles\<close> and the same with
  \<^verbatim>\<open>maxFiles\<close> and \<^verbatim>\<open>>\<close>; false when the length is \<^verbatim>\<open>undefined\<close>.
\<close>

definition too_few :: "FileFieldOptions \<Rightarrow> entry \<Rightarrow> bool" where
  "too_few opts files =
     (case (minFiles opts, entry_length files) of
        (Some m, Some n) \<Rightarrow> m \<noteq> 0 \<and> n < m
      | _ \<Rightarrow> False)"

definition too_many :: "FileFieldOptions \<Rightarrow> entry \<Rightarrow> bool" where
  "too_many opts files =
     (case (maxFiles opts, entry_length files) of
        (Some m, Some n) \<Rightarrow> m \<noteq> 0 \<and> n > m
      | _ \<Rightarrow> False)"

definition quoted :: "string \<Rightarrow> string" where
  "quoted s = [CHR 0x27] @ s @ [CHR 0x27]"

definition count_text :: "nat option \<Rightarrow> string" where
  "count_text n = (case n of None \<Rightarrow> ''undefined'' | Some k \<Rightarrow> show_nat k)"

text \<open>\<^verbatim>\<open>(req.files as any)[fieldName] = files[0]\<close>, done when \<^verbatim>\<open>files?.length\<close> is truthy.\<close>

fun keep_first :: "file_container \<Rightarrow> string \<Rightarrow> entry \<Rightarrow> file_container" where
  "keep_first c k (Files (f # fs)) = c(k \<mapsto> Single f)"
| "keep_first c k e = c"

text \<open>
  One pass of the loop over \<^verbatim>\<open>fileFields\<close> (lines 167 to 239 of \<^verbatim>\<open>files.ts\<close>): the
  state after the pass, and whether the pass returned early.
\<close>

definition process_field ::
  "(string \<Rightarrow> int option) \<Rightarrow> FileFieldMetadata \<Rightarrow> state \<Rightarrow> state \<times> outcome" where
  "process_field bytes meta s =
     (let c = fst s;
          li = snd s;
          name = field_name meta;
          opts = options meta;
          files = get_entry c name
      in
        if files = Undefined \<or> entry_length files = Some 0 then
          (if truthy_bool (required opts)
           then ((c, li), Rejected (''No files uploaded for field: '' @ name))
           else ((c(name \<mapsto> (if isArray meta then Files [] else Undefined)), li), Accepted))
        else if isArray meta then
          (if too_few opts files
           then ((c, li), Rejected (''Too few files uploaded for '' @ quoted name
                                   @ ''. Minimum number: '' @ count_text (minFiles opts) @ ''.''))
           else if too_many opts files
           then ((c, li), Rejected (''Too many files uploaded for '' @ quoted name
                                   @ ''. Maximum number: '' @ count_text (maxFiles opts) @ ''.''))
           else (case iterate_files bytes opts files li of (li', r) \<Rightarrow> ((c, li'), r)))
        else
          (if truthy_bool (required opts) \<and> entry_length files = Some 0
           then ((c, li), Rejected (''No files uploaded for field: '' @ name))
           else (case iterate_files bytes opts files li of
                   (li', r) \<Rightarrow> ((keep_first c name files, li'), r))))"

fun validate_fields ::
  "(string \<Rightarrow> int option) \<Rightarrow> FileFieldMetadata list \<Rightarrow> state \<Rightarrow> state \<times> outcome" where
  "validate_fields bytes [] s = (s, Accepted)"
| "validate_fields bytes (meta # metas) s =
     (case process_field bytes meta s of
        (s', Accepted) \<Rightarrow> validate_fields bytes metas s'
      | (s', r) \<Rightarrow> (s', r))"

text \<open>
  The callback given to the upload engine: \<^verbatim>\<open>if (err) return next(err)\<close>, then
  \<^verbatim>\<open>if (!req.files) return next()\<close>, then the loop. An absent \<^verbatim>\<open>req.files\<close> is \<open>None\<close>;
  the engine's error is given by its message.
\<close>

definition UseMulter ::
  "(string \<Rightarrow> int option) \<Rightarrow> FileFieldMetadata list \<Rightarrow> string option \<Rightarrow> file_container option
     \<Rightarrow> rx_store \<Rightarrow> (file_container option \<times> rx_store) \<times> outcome" where
  "UseMulter bytes fileFields err req_files li =
     (case err of
        Some e \<Rightarrow> ((req_files, li), Rejected e)
      | None \<Rightarrow>
          (case req_files of
             None \<Rightarrow> ((None, li), Accepted)
           | Some c \<Rightarrow>
               (case validate_fields bytes fileFields (c, li) of
                  ((c', li'), r) \<Rightarrow> ((Some c', li'), r))))"

text \<open>
  The field table handed to the upload engine:
  \<^verbatim>\<open>maxCount = meta.isArray ? (meta.options.maxFiles ?? 99) : 1\<close>.
\<close>

definition maxCount :: "FileFieldMetadata \<Rightarrow> nat" where
  "maxCount meta =
     (if isArray meta
      then (case maxFiles (options meta) of None \<Rightarrow> 99 | Some n \<Rightarrow> n)
      else 1)"

definition multerFields :: "FileFieldMetadata list \<Rightarrow> (string \<times> nat) list" where
  "multerFields fileFields = map (\<lambda>meta. (field_name meta, maxCount meta)) fileFields"

section \<open>The upload engine and the whole middleware\<close>

text \<open>
  Modelled from the spec: the multipart parser (the package \<^verbatim>\<open>multer\<close>) is imported, and
  its source is not part of the repository; the spec has it group the files of a request
  by field name before the validator runs. The model follows the package's
  \<^verbatim>\<open>fields(...)\<close>: the table \<^verbatim>\<open>filesLeft\<close> gives every listed name its \<^verbatim>\<open>maxCount\<close> (for
  a name listed twice the last entry stands); each file of the request, in order, is
  refused with the error \<^verbatim>\<open>Unexpected field\<close> when \<^verbatim>\<open>filesLeft\<close> has nothing left for its
  name, and is otherwise counted and appended to the array under its name. A request that
  is not multipart is passed on untouched, without \<^verbatim>\<open>req.files\<close>.
\<close>

text \<open>The files of an array; a property that holds no array has none.\<close>

fun received :: "entry \<Rightarrow> MulterFile list" where
  "received (Files fs) = fs"
| "received (Single f) = []"
| "received Undefined = []"

definition filesLeft :: "(string \<times> nat) list \<Rightarrow> string \<Rightarrow> nat" where
  "filesLeft table name = (case map_of (rev table) name of None \<Rightarrow> 0 | Some n \<Rightarrow> n)"

fun upload_engine ::
  "(string \<Rightarrow> nat) \<Rightarrow> (string \<times> MulterFile) list \<Rightarrow> file_container
     \<Rightarrow> string option \<times> file_container" where
  "upload_engine left [] c = (None, c)"
| "upload_engine left ((name, f) # parts) c =
     (if left name = 0 then (Some ''Unexpected field'', c)
      else upload_engine (left(name := left name - 1)) parts
             (c(name \<mapsto> Files (received (get_entry c name) @ [f]))))"

datatype request = NotMultipart | Multipart "(string \<times> MulterFile) list"

text \<open>
  \<^verbatim>\<open>UseBefore((req, res, next) => uploadEngine.fields(multerFields)(req, res, (err) =>
  ...))\<close>: the engine, then the callback.
\<close>

definition UseMulter_middleware ::
  "(string \<Rightarrow> int option) \<Rightarrow> FileFieldMetadata list \<Rightarrow> request \<Rightarrow> rx_store
     \<Rightarrow> (file_container option \<times> rx_store) \<times> outcome" where
  "UseMulter_middleware bytes fileFields req li =
     (case req of
        NotMultipart \<Rightarrow> UseMulter bytes fileFields None None li
      | Multipart parts \<Rightarrow>
          (case upload_engine (filesLeft (multerFields fileFields)) parts Map.empty of
             (err, c) \<Rightarrow> UseMulter bytes fileFields err (Some c) li))"

section \<open>Declaring the fields\<close>

text \<open>
  \<^verbatim>\<open>generateFileDescription\<close>. In the list of allowed types every item is printed by its
  own \<^verbatim>\<open>toString\<close>, which for a string is the string.
\<close>

definition item_toString :: "mime_pattern \<Rightarrow> string" where
  "item_toString item = (case item of Rx a regex \<Rightarrow> toString regex | Str src made \<Rightarrow> src)"

definition generateFileDescription :: "FileFieldOptions \<Rightarrow> bool \<Rightarrow> string" where
  "generateFileDescription opts is_array =
     ''Upload '' @ (if is_array then ''multiple files'' else ''a file'')
     @ (case fieldName opts of
          None \<Rightarrow> []
        | Some n \<Rightarrow> if n \<noteq> [] then '' under the key '' @ quoted n @ ''.'' else [])
     @ (case mimeTypes opts of
          None \<Rightarrow> []
        | Some items \<Rightarrow>
            if items \<noteq> []
            then '' Allowed MIME types: '' @ join '', '' (map item_toString items) @ ''.''
            else [])
     @ (case minSize opts of
          None \<Rightarrow> []
        | Some s \<Rightarrow> if s \<noteq> [] then '' Minimum size: '' @ s @ ''.'' else [])
     @ (case maxSize opts of
          None \<Rightarrow> []
        | Some s \<Rightarrow> if s \<noteq> [] then '' Maximum size: '' @ s @ ''.'' else [])
     @ (case minFiles opts of
          None \<Rightarrow> []
        | Some n \<Rightarrow> if n \<noteq> 0 then '' Minimum number of files: '' @ show_nat n @ ''.'' else [])
     @ (case maxFiles opts of
          None \<Rightarrow> []
        | Some n \<Rightarrow> if n \<noteq> 0 then '' Maximum number of files: '' @ show_nat n @ ''.'' else [])"

text \<open>
  The schema of a file property: a binary string, or an array of binary strings with its
  optional \<^verbatim>\<open>minItems\<close> and \<^verbatim>\<open>maxItems\<close>. Other properties of a class are opaque.
\<close>

datatype json_type = Binary_string | Array_of_binary_strings

record file_schema =
  schema_type :: json_type
  description :: string
  minItems :: "nat option"
  maxItems :: "nat option"

datatype property_schema = File_schema file_schema | Other_schema string

text \<open>
  What the property decorators leave on a class: the list under
  \<^verbatim>\<open>FILE_FIELDS_METADATA\<close>, the validation decorators applied (by name) and the schemas
  given to \<^verbatim>\<open>JSONSchema\<close>.
\<close>

record dto_class =
  file_fields :: "FileFieldMetadata list"
  validation :: "(string \<times> string) list"
  json_schemas :: "(string \<times> file_schema) list"

definition storeFileFieldMetadata :: "string \<Rightarrow> bool \<Rightarrow> FileFieldOptions \<Rightarrow> dto_class \<Rightarrow> dto_class" where
  "storeFileFieldMetadata key is_array opts cls =
     cls\<lparr>file_fields := file_fields cls
            @ [\<lparr>propertyKey = key, isArray = is_array, options = opts\<rparr>]\<rparr>"

definition getFileFieldsMetadata :: "dto_class \<Rightarrow> FileFieldMetadata list" where
  "getFileFieldsMetadata cls = file_fields cls"

definition IsFile :: "FileFieldOptions \<Rightarrow> string \<Rightarrow> dto_class \<Rightarrow> dto_class" where
  "IsFile opts key cls =
     (let cls1 = storeFileFieldMetadata key False opts cls;
          cls2 = cls1\<lparr>validation := validation cls1
                   @ [(key, if \<not> truthy_bool (required opts) then ''IsOptional'' else ''IsDefined'')]\<rparr>
      in cls2\<lparr>json_schemas := json_schemas cls2
                @ [(key, \<lparr>schema_type = Binary_string,
                          description = generateFileDescription opts False,
                          minItems = None, maxItems = None\<rparr>)]\<rparr>)"

definition IsFiles :: "FileFieldOptions \<Rightarrow> string \<Rightarrow> dto_class \<Rightarrow> dto_class" where
  "IsFiles opts key cls =
     (let cls1 = storeFileFieldMetadata key True opts cls;
          cls2 = cls1\<lparr>validation := validation cls1
                   @ [(key, if \<not> truthy_bool (required opts) then ''IsOptional'' else ''IsDefined''),
                      (key, ''IsArray'')]\<rparr>
      in cls2\<lparr>json_schemas := json_schemas cls2
                @ [(key, \<lparr>schema_type = Array_of_binary_strings,
                          description = generateFileDescription opts True,
                          minItems = None, maxItems = None\<rparr>)]\<rparr>)"

text \<open>
  The schema that \<^verbatim>\<open>UseMulter\<close> gives to \<^verbatim>\<open>OpenAPI\<close> (lines 245 to 296 of
  \<^verbatim>\<open>files.ts\<close>). \<open>dtoSchema\<close> is what \<^verbatim>\<open>validationMetadatasToSchemas\<close> has for the
  class: nothing, or a schema with or without \<^verbatim>\<open>properties\<close>. The result is the error
  thrown, or the properties of the schema put under \<^verbatim>\<open>multipart/form-data\<close>.
\<close>

definition field_schema :: "FileFieldMetadata \<Rightarrow> file_schema" where
  "field_schema meta =
     (if isArray meta
      then \<lparr>schema_type = Array_of_binary_strings,
            description = generateFileDescription (options meta) True,
            minItems = (if truthy_number (minFiles (options meta)) then minFiles (options meta)
                        else None),
            maxItems = (if truthy_number (maxFiles (options meta)) then maxFiles (options meta)
                        else None)\<rparr>
      else \<lparr>schema_type = Binary_string,
            description = generateFileDescription (options meta) False,
            minItems = None, maxItems = None\<rparr>)"

fun set_properties ::
  "FileFieldMetadata list \<Rightarrow> (string \<Rightarrow> property_schema option) \<Rightarrow> (string \<Rightarrow> property_schema option)" where
  "set_properties [] props = props"
| "set_properties (meta # metas) props =
     set_properties metas (props(field_name meta \<mapsto> File_schema (field_schema meta)))"

definition UseMulter_schema ::
  "string \<Rightarrow> (string \<Rightarrow> property_schema option) option option \<Rightarrow> FileFieldMetadata list
     \<Rightarrow> string + (string \<Rightarrow> property_schema option)" where
  "UseMulter_schema dto_name dtoSchema fileFields =
     (case dtoSchema of
        None \<Rightarrow>
          Inl (''Schema for '' @ dto_name @ '' not found. Make sure the class is decorated with class-validator, reflect-metadata, and the schema generation is called appropriately.'')
      | Some properties \<Rightarrow>
          Inr (set_properties fileFields
                 (case properties of None \<Rightarrow> Map.empty | Some props \<Rightarrow> props)))"

section \<open>\<^verbatim>\<open>toSlug\<close>\<close>

text \<open>
  A JavaScript string is a sequence of UTF-16 code units, given here by their numbers.
  \<^verbatim>\<open>toSlug\<close> is
  \<^verbatim>\<open>str.trim().replace(/([a-z])([A-Z])/g, "$1_$2").replace(/([a-z])([A-Z])/g, "$1_$2")
       .replace(/[^a-zA-Z0-9_.]+/g, "_").toUpperCase()\<close>.
\<close>

type_synonym js_string = "nat list"

definition is_lower :: "nat \<Rightarrow> bool" where
  "is_lower c = (97 \<le> c \<and> c \<le> 122)"

definition is_upper :: "nat \<Rightarrow> bool" where
  "is_upper c = (65 \<le> c \<and> c \<le> 90)"

definition is_digit :: "nat \<Rightarrow> bool" where
  "is_digit c = (48 \<le> c \<and> c \<le> 57)"

text \<open>The class \<^verbatim>\<open>[a-zA-Z0-9_.]\<close>.\<close>

definition is_slug_char :: "nat \<Rightarrow> bool" where
  "is_slug_char c = (is_lower c \<or> is_upper c \<or> is_digit c \<or> c = 95 \<or> c = 46)"

text \<open>The white space and line terminators that \<^verbatim>\<open>trim\<close> removes.\<close>

definition is_white_space :: "nat \<Rightarrow> bool" where
  "is_white_space c =
     (c \<in> {0x9, 0xA, 0xB, 0xC, 0xD, 0x20, 0xA0, 0x1680, 0x2028, 0x2029, 0x202F, 0x205F, 0x3000, 0xFEFF}
      \<or> (0x2000 \<le> c \<and> c \<le> 0x200A))"

definition trim :: "js_string \<Rightarrow> js_string" where
  "trim s = rev (dropWhile is_white_space (rev (dropWhile is_white_space s)))"

text \<open>
  \<^verbatim>\<open>replace(/([a-z])([A-Z])/g, "$1_$2")\<close>: the scan goes left to right, and after a
  match it resumes behind the two code units matched.
\<close>

fun split_camel :: "js_string \<Rightarrow> js_string" where
  "split_camel (a # b # rest) =
     (if is_lower a \<and> is_upper b then a # 95 # b # split_camel rest
      else a # split_camel (b # rest))"
| "split_camel s = s"

text \<open>
  \<^verbatim>\<open>replace(/[^a-zA-Z0-9_.]+/g, "_")\<close>: every maximal run of code units outside the
  class becomes one underscore. The flag says that the scan is inside such a run.
\<close>

fun squeeze :: "bool \<Rightarrow> js_string \<Rightarrow> js_string" where
  "squeeze in_run [] = []"
| "squeeze in_run (c # cs) =
     (if is_slug_char c then c # squeeze False cs
      else if in_run then squeeze True cs
      else 95 # squeeze True cs)"

text \<open>
  \<^verbatim>\<open>toUpperCase\<close> on the letters \<^verbatim>\<open>a\<close> to \<^verbatim>\<open>z\<close>. In \<^verbatim>\<open>toSlug\<close> it is applied to
  the result of \<open>squeeze\<close>, which holds code units of the class only
  (lemma \<open>squeeze_slug_chars\<close>), so no other letter reaches it.
\<close>

definition toUpperCase :: "js_string \<Rightarrow> js_string" where
  "toUpperCase s = map (\<lambda>c. if is_lower c then c - 32 else c) s"

definition toSlug :: "js_string \<Rightarrow> js_string" where
  "toSlug str = toUpperCase (squeeze False (split_camel (split_camel (trim str))))"

text \<open>What a slug is made of: upper-case letters, digits, underscore and dot.\<close>

definition is_final_char :: "nat \<Rightarrow> bool" where
  "is_final_char c = (is_upper c \<or> is_digit c \<or> c = 95 \<or> c = 46)"

section \<open>The size parser\<close>

text \<open>
  Modelled from the spec: the parser \<^verbatim>\<open>bytes\<close> is an imported package, and its source is
  not part of the repository. The spec has a size string such as \<^verbatim>\<open>"5MB"\<close> or
  \<^verbatim>\<open>"200KB"\<close> parsed into an exact byte count with binary unit prefixes, \<^verbatim>\<open>"1KB"\<close>
  being 1024 bytes. The model follows the package's \<^verbatim>\<open>parse\<close>: a text of the form
  \<^verbatim>\<open>/^((-|\+)?(\d+(?:\.\d+)?)) *(kb|mb|gb|tb|pb)$/i\<close> is the number times the unit,
  rounded down; any other text goes through \<^verbatim>\<open>parseInt(val, 10)\<close>, and is \<^verbatim>\<open>null\<close>
  (\<open>None\<close>) when that gives \<^verbatim>\<open>NaN\<close>. The product is computed exactly, not in floating
  point.
\<close>

definition is_digit_char :: "char \<Rightarrow> bool" where
  "is_digit_char c = (c \<in> set ''0123456789'')"

definition digit_value :: "char \<Rightarrow> nat" where
  "digit_value c = of_char c - 48"

definition decimal :: "string \<Rightarrow> nat" where
  "decimal ds = foldl (\<lambda>n c. 10 * n + digit_value c) 0 ds"

definition lower_char :: "char \<Rightarrow> char" where
  "lower_char c = (case map_of (zip ''KMGTPB'' ''kmgtpb'') c of Some d \<Rightarrow> d | None \<Rightarrow> c)"

definition unit_factor :: "string \<Rightarrow> int option" where
  "unit_factor u =
     map_of [(''kb'', 1024), (''mb'', 1024 ^ 2), (''gb'', 1024 ^ 3), (''tb'', 1024 ^ 4),
             (''pb'', 1024 ^ 5)]
       (map lower_char u)"

fun split_sign :: "string \<Rightarrow> int \<times> string" where
  "split_sign [] = (1, [])"
| "split_sign (c # cs) =
     (if c = CHR ''-'' then (- 1, cs) else if c = CHR ''+'' then (1, cs) else (1, c # cs))"

fun split_fraction :: "string \<Rightarrow> string \<times> string" where
  "split_fraction [] = ([], [])"
| "split_fraction (c # r) =
     (if c = CHR ''.'' \<and> takeWhile is_digit_char r \<noteq> []
      then (takeWhile is_digit_char r, dropWhile is_digit_char r)
      else ([], c # r))"

definition parse_with_unit :: "string \<Rightarrow> int option" where
  "parse_with_unit val =
     (case split_sign val of (sg, r0) \<Rightarrow>
        (case split_fraction (dropWhile is_digit_char r0) of (fp, r2) \<Rightarrow>
           (let ip = takeWhile is_digit_char r0 in
            if ip = [] then None
            else (case unit_factor (dropWhile (\<lambda>c. c = CHR '' '') r2) of
                    None \<Rightarrow> None
                  | Some k \<Rightarrow> Some ((sg * k * int (decimal (ip @ fp))) div 10 ^ length fp)))))"

definition is_space_char :: "char \<Rightarrow> bool" where
  "is_space_char c =
     (c \<in> set [CHR 0x09, CHR 0x0A, CHR 0x0B, CHR 0x0C, CHR 0x0D, CHR 0x20, CHR 0xA0])"

definition parseInt10 :: "string \<Rightarrow> int option" where
  "parseInt10 val =
     (case split_sign (dropWhile is_space_char val) of (sg, r) \<Rightarrow>
        (let ds = takeWhile is_digit_char r in
         if ds = [] then None else Some (sg * int (decimal ds))))"

definition bytes_parse :: "string \<Rightarrow> int option" where
  "bytes_parse val =
     (case parse_with_unit val of Some n \<Rightarrow> Some n | None \<Rightarrow> parseInt10 val)"

section \<open>Expressions for plain sources\<close>

text \<open>
  The language's \<^verbatim>\<open>new RegExp(source)\<close>, for a plain source only: a non-empty text
  made of letters, digits, \<^verbatim>\<open>/\<close>, \<^verbatim>\<open>-\<close> and \<^verbatim>\<open>_\<close>, none of which is a pattern syntax
  character. The expression has no flag and matches the source itself wherever it occurs
  (no anchor is implied): started at an index, the matching finds the first occurrence at
  or after it. \<^verbatim>\<open>toString\<close> gives the source between slashes with every \<^verbatim>\<open>/\<close> escaped.
  Nothing is said here about other sources, and \<open>RegExp_of_plain\<close> is applied to plain
  sources only.
\<close>

definition is_plain_char :: "char \<Rightarrow> bool" where
  "is_plain_char c =
     (c \<in> set ''abcdefghijklmnopqrstuvwxyzABCDEFGHIJKLMNOPQRSTUVWXYZ0123456789/-_'')"

definition plain_source :: "string \<Rightarrow> bool" where
  "plain_source src = (src \<noteq> [] \<and> list_all is_plain_char src)"

fun starts_with :: "string \<Rightarrow> string \<Rightarrow> bool" where
  "starts_with [] s = True"
| "starts_with (p # ps) [] = False"
| "starts_with (p # ps) (c # cs) = (p = c \<and> starts_with ps cs)"

fun occurs_in :: "string \<Rightarrow> string \<Rightarrow> bool" where
  "occurs_in p [] = (p = [])"
| "occurs_in p (c # cs) = (starts_with p (c # cs) \<or> occurs_in p cs)"

text \<open>Where the first occurrence of \<open>p\<close> in \<open>s\<close> ends, counted from the start of \<open>s\<close>.\<close>

fun find_in :: "string \<Rightarrow> string \<Rightarrow> nat option" where
  "find_in p [] = (if p = [] then Some 0 else None)"
| "find_in p (c # cs) =
     (if starts_with p (c # cs) then Some (length p) else map_option Suc (find_in p cs))"

definition find_from :: "string \<Rightarrow> nat \<Rightarrow> string \<Rightarrow> nat option" where
  "find_from p i s =
     (if i \<le> length s then map_option (\<lambda>e. i + e) (find_in p (drop i s)) else None)"

definition escape_slashes :: "string \<Rightarrow> string" where
  "escape_slashes s = concat (map (\<lambda>c. if c = CHR ''/'' then [CHR 0x5C, c] else [c]) s)"

definition RegExp_of_plain :: "string \<Rightarrow> regexp" where
  "RegExp_of_plain src =
     \<lparr>search = find_from src, advancing = False, toString = ''/'' @ escape_slashes src @ ''/''\<rparr>"

text \<open>The string entry \<^verbatim>\<open>"src"\<close> of a \<^verbatim>\<open>mimeTypes\<close> array, for a plain source.\<close>

definition string_item :: "string \<Rightarrow> mime_pattern" where
  "string_item src = Str src (Some (RegExp_of_plain src))"

text \<open>The object \<^verbatim>\<open>/src/g\<close>, for a plain source.\<close>

definition global_RegExp_of_plain :: "string \<Rightarrow> regexp" where
  "global_RegExp_of_plain src =
     \<lparr>search = find_from src, advancing = True, toString = ''/'' @ escape_slashes src @ ''/g''\<rparr>"

section \<open>The design's data model and rules\<close>





text \<open>An entry whose test does not depend on \<^verbatim>\<open>lastIndex\<close>: a string, or an object without the \<^verbatim>\<open>g\<close> and \<^verbatim>\<open>y\<close> flags.\<close>

fun flagless_item :: "mime_pattern \<Rightarrow> bool" where
  "flagless_item (Rx a regex) = (\<not> advancing regex)"
| "flagless_item (Str src made) = True"











text \<open>Acceptance when no rule is violated, else the first violation.\<close>

fun first_violation :: "string list \<Rightarrow> outcome" where
  "first_violation [] = Accepted"
| "first_violation (e # es) = Rejected e"

section \<open>Shapes of a property\<close>

text \<open>A field has received no file: its property is absent, \<^verbatim>\<open>undefined\<close> or an empty array.\<close>

fun zero_files :: "entry \<Rightarrow> bool" where
  "zero_files Undefined = True"
| "zero_files (Files fs) = (fs = [])"
| "zero_files (Single f) = False"

text \<open>
  The shape in which a field's property is left by its pass of the loop: the first file for
  a scalar field and the array for an array field when files were received, else
  \<^verbatim>\<open>undefined\<close> for a scalar field and the empty array for an array field.
\<close>

fun normalized :: "bool \<Rightarrow> entry \<Rightarrow> entry" where
  "normalized is_array (Files (f # fs)) = (if is_array then Files (f # fs) else Single f)"
| "normalized is_array e = (if is_array then Files [] else Undefined)"

text \<open>A property as the parser leaves it: absent, or an array.\<close>

fun raw_entry :: "entry option \<Rightarrow> bool" where
  "raw_entry None = True"
| "raw_entry (Some (Files fs)) = True"
| "raw_entry (Some e) = False"

section \<open>Example declarations\<close>

definition no_options :: FileFieldOptions where
  "no_options = \<lparr>fieldName = None, required = None, maxSize = None, minSize = None,
                  maxFiles = None, minFiles = None, mimeTypes = None\<rparr>"

text \<open>The required scalar field \<^verbatim>\<open>avatar\<close>: at most 2MB, PNG or JPEG.\<close>

definition avatar_field :: FileFieldMetadata where
  "avatar_field =
     \<lparr>propertyKey = ''avatar'', isArray = False,
      options = no_options\<lparr>required := Some True, maxSize := Some ''2MB'',
                  mimeTypes := Some [string_item ''image/png'', string_item ''image/jpeg'']\<rparr>\<rparr>"

text \<open>The optional array field \<^verbatim>\<open>docs\<close>: two to five files.\<close>

definition docs_field :: FileFieldMetadata where
  "docs_field =
     \<lparr>propertyKey = ''docs'', isArray = True,
      options = no_options\<lparr>minFiles := Some 2, maxFiles := Some 5\<rparr>\<rparr>"

text \<open>
  The required scalar field \<^verbatim>\<open>photo\<close>: at most 2MB, with the objects \<^verbatim>\<open>/image\/png/\<close>
  and \<^verbatim>\<open>/image\/jpeg/\<close> as patterns.
\<close>

definition photo_field :: FileFieldMetadata where
  "photo_field =
     \<lparr>propertyKey = ''photo'', isArray = False,
      options = no_options\<lparr>required := Some True, maxSize := Some ''2MB'',
                  mimeTypes := Some [Rx 0 (RegExp_of_plain ''image/png''),
                                     Rx 1 (RegExp_of_plain ''image/jpeg'')]\<rparr>\<rparr>"

definition png_file :: "string \<Rightarrow> nat \<Rightarrow> MulterFile" where
  "png_file name n = \<lparr>originalname = name, mimetype = ''image/png'', file_size = n\<rparr>"

text \<open>Every \<^verbatim>\<open>lastIndex\<close> is 0, as when the objects are made.\<close>

definition fresh :: rx_store where
  "fresh = (\<lambda>a. 0)"

section \<open>Deferred types: \<^verbatim>\<open>IsEntity\<close> and \<^verbatim>\<open>AsyncResolver\<close>\<close>

text \<open>
  A promise is given by the state in which it ends: fulfilled with a value, rejected with a
  reason, or pending for ever. The effects of a callback (on the metadata the decorators
  register, on the console) are applied to the registry where the callback is attached;
  the order in time between the callbacks of different promises is not represented.
\<close>

datatype 'a promise = Fulfilled 'a | RejectedWith string | Pending

text \<open>
  \<^verbatim>\<open>p.then(onFulfilled)\<close> and \<^verbatim>\<open>p.catch(onRejected)\<close>: a callback returns a value
  (\<open>Inr\<close>) or throws (\<open>Inl\<close>), and a throw rejects the new promise.
\<close>

definition promise_then ::
  "'a promise \<Rightarrow> ('a \<Rightarrow> 'w \<Rightarrow> (string + 'b) \<times> 'w) \<Rightarrow> 'w \<Rightarrow> 'b promise \<times> 'w" where
  "promise_then p on_fulfilled w =
     (case p of
        Fulfilled v \<Rightarrow>
          (case on_fulfilled v w of
             (Inl reason, w') \<Rightarrow> (RejectedWith reason, w')
           | (Inr b, w') \<Rightarrow> (Fulfilled b, w'))
      | RejectedWith reason \<Rightarrow> (RejectedWith reason, w)
      | Pending \<Rightarrow> (Pending, w))"

definition promise_catch ::
  "'a promise \<Rightarrow> (string \<Rightarrow> 'w \<Rightarrow> (string + 'a) \<times> 'w) \<Rightarrow> 'w \<Rightarrow> 'a promise \<times> 'w" where
  "promise_catch p on_rejected w =
     (case p of
        Fulfilled v \<Rightarrow> (Fulfilled v, w)
      | RejectedWith reason \<Rightarrow>
          (case on_rejected reason w of
             (Inl reason', w') \<Rightarrow> (RejectedWith reason', w')
           | (Inr a, w') \<Rightarrow> (Fulfilled a, w'))
      | Pending \<Rightarrow> (Pending, w))"

text \<open>
  \<^verbatim>\<open>Promise.all\<close>: fulfilled when every promise is, rejected as soon as one is rejected.
  Which rejection comes first depends on time; the model takes the first in the list.
\<close>

fun Promise_all :: "'a promise list \<Rightarrow> 'a list promise" where
  "Promise_all [] = Fulfilled []"
| "Promise_all (p # ps) =
     (case p of
        RejectedWith reason \<Rightarrow> RejectedWith reason
      | Pending \<Rightarrow>
          (case Promise_all ps of RejectedWith reason \<Rightarrow> RejectedWith reason | _ \<Rightarrow> Pending)
      | Fulfilled v \<Rightarrow>
          (case Promise_all ps of
             Fulfilled vs \<Rightarrow> Fulfilled (v # vs)
           | RejectedWith reason \<Rightarrow> RejectedWith reason
           | Pending \<Rightarrow> Pending))"

text \<open>
  What the decorators of \<^verbatim>\<open>decorators.ts\<close> write: the static list
  \<^verbatim>\<open>AsyncResolver.tasks\<close>, the lines of \<^verbatim>\<open>console.error\<close> (message and error), the types
  given to \<^verbatim>\<open>Type\<close> and the schema references set by \<^verbatim>\<open>ApplyJsonSchemaType\<close>.
\<close>

record 'ty registry =
  tasks :: "unit promise list"
  console :: "(string \<times> string) list"
  item_types :: "(string \<times> 'ty option) list"
  schema_refs :: "(string \<times> bool \<times> 'ty) list"

definition addTask :: "unit promise \<Rightarrow> 'ty registry \<Rightarrow> 'ty registry" where
  "addTask task w = w\<lparr>tasks := tasks w @ [task]\<rparr>"

text \<open>
  \<^verbatim>\<open>resolveAll\<close> awaits \<^verbatim>\<open>Promise.all(this.tasks)\<close> when there are tasks: the promise
  it returns is rejected (the failure is raised again) when the batch is.
\<close>

definition resolveAll :: "'ty registry \<Rightarrow> unit promise" where
  "resolveAll w =
     (if length (tasks w) > 0
      then (case Promise_all (tasks w) of
              Fulfilled vs \<Rightarrow> Fulfilled ()
            | RejectedWith reason \<Rightarrow> RejectedWith reason
            | Pending \<Rightarrow> Pending)
      else Fulfilled ())"

text \<open>\<^verbatim>\<open>ApplyJsonSchemaType\<close>: a reference is set only for a truthy type (\<open>Some\<close>).\<close>

definition ApplyJsonSchemaType :: "'ty option \<Rightarrow> string \<Rightarrow> bool \<Rightarrow> 'ty registry \<Rightarrow> 'ty registry" where
  "ApplyJsonSchemaType type key is_array w =
     (case type of
        None \<Rightarrow> w
      | Some t \<Rightarrow> w\<lparr>schema_refs := schema_refs w @ [(key, is_array, t)]\<rparr>)"

text \<open>
  The body shared by the callback of \<^verbatim>\<open>then\<close> and by the branch for a type given
  directly: \<^verbatim>\<open>Type(() => type)(target, propertyKey)\<close>, then \<^verbatim>\<open>ApplyJsonSchemaType\<close>.
  The decorators called belong to other packages; \<open>decorate\<close> says whether they throw
  (\<open>Some reason\<close>) for a type.
\<close>

definition apply_type ::
  "('ty option \<Rightarrow> string option) \<Rightarrow> string \<Rightarrow> bool \<Rightarrow> 'ty option \<Rightarrow> 'ty registry
     \<Rightarrow> (string + unit) \<times> 'ty registry" where
  "apply_type decorate key is_array type w =
     (case decorate type of
        Some reason \<Rightarrow> (Inl reason, w)
      | None \<Rightarrow>
          (Inr (), ApplyJsonSchemaType type key is_array
                     (w\<lparr>item_types := item_types w @ [(key, type)]\<rparr>)))"

text \<open>The handler given to \<^verbatim>\<open>catch\<close>: it logs and returns.\<close>

definition log_error :: "string \<Rightarrow> string \<Rightarrow> 'ty registry \<Rightarrow> (string + unit) \<times> 'ty registry" where
  "log_error key err w =
     (Inr (), w\<lparr>console := console w @ [(''Error resolving type for property :'' @ key, err)]\<rparr>)"

text \<open>
  \<^verbatim>\<open>typeFunction()\<close> gives the type or a promise of it. \<^verbatim>\<open>IsEntity\<close> returns the
  registry, or the reason thrown while the decorator runs. (Its calls of
  \<^verbatim>\<open>ValidateNested\<close> and \<^verbatim>\<open>Reflect.defineMetadata\<close> write to other stores and are left out.)
\<close>

datatype 'ty reference = Direct "'ty option" | Deferred "'ty option promise"

definition IsEntity ::
  "('ty option \<Rightarrow> string option) \<Rightarrow> 'ty reference \<Rightarrow> bool \<Rightarrow> string \<Rightarrow> 'ty registry
     \<Rightarrow> string + 'ty registry" where
  "IsEntity decorate referenceType is_array key w =
     (case referenceType of
        Deferred p \<Rightarrow>
          (case promise_then p (apply_type decorate key is_array) w of
             (settled, w1) \<Rightarrow>
               (case promise_catch settled (log_error key) w1 of
                  (task, w2) \<Rightarrow> Inr (addTask task w2)))
      | Direct type \<Rightarrow>
          (case apply_type decorate key is_array type w of
             (Inl reason, w1) \<Rightarrow> Inl reason
           | (Inr u, w1) \<Rightarrow> Inr w1))"

text \<open>The decorators of a program, applied one after the other.\<close>

fun declare_all ::
  "('ty option \<Rightarrow> string option) \<Rightarrow> ('ty reference \<times> bool \<times> string) list \<Rightarrow> 'ty registry
     \<Rightarrow> string + 'ty registry" where
  "declare_all decorate [] w = Inr w"
| "declare_all decorate ((referenceType, is_array, key) # decls) w =
     (case IsEntity decorate referenceType is_array key w of
        Inl reason \<Rightarrow> Inl reason
      | Inr w' \<Rightarrow> declare_all decorate decls w')"

text \<open>A declaration whose type promise, if it has one, does not stay pending.\<close>

fun settles :: "'ty reference \<times> bool \<times> string \<Rightarrow> bool" where
  "settles (Deferred Pending, is_array, key) = False"
| "settles decl = True"

fun not_rejected :: "'a promise \<Rightarrow> bool" where
  "not_rejected (RejectedWith reason) = False"
| "not_rejected p = True"

text \<open>The registry before any decorator has run, and decorators that never throw.\<close>

definition empty_registry :: "'ty registry" where
  "empty_registry = \<lparr>tasks = [], console = [], item_types = [], schema_refs = []\<rparr>"

definition quiet :: "nat option \<Rightarrow> string option" where
  "quiet type = None"

section \<open>Properties of \<^verbatim>\<open>toSlug\<close>\<close>

lemma squeeze_slug_chars: "\<forall>c\<in>set (squeeze b s). is_slug_char c"
  by (induction b s rule: squeeze.induct) (auto simp: is_slug_char_def)

lemma toUpperCase_final:
  "\<forall>c\<in>set s. is_slug_char c \<Longrightarrow> \<forall>c\<in>set (toUpperCase s). is_final_char c"
  by (auto simp: toUpperCase_def is_slug_char_def is_final_char_def is_lower_def is_upper_def
      is_digit_def)

lemma toSlug_final: "\<forall>c\<in>set (toSlug s). is_final_char c"
  unfolding toSlug_def by (rule toUpperCase_final) (rule squeeze_slug_chars)

lemma final_not_white_space: "is_final_char c \<Longrightarrow> \<not> is_white_space c"
  by (auto simp: is_final_char_def is_white_space_def is_upper_def is_digit_def)

lemma dropWhile_none: "\<forall>c\<in>set s. \<not> P c \<Longrightarrow> dropWhile P s = s"
  by (cases s) auto

lemma trim_final: "\<forall>c\<in>set s. is_final_char c \<Longrightarrow> trim s = s"
  by (simp add: trim_def dropWhile_none final_not_white_space)

lemma split_camel_final: "\<forall>c\<in>set s. is_final_char c \<Longrightarrow> split_camel s = s"
  by (induction s rule: split_camel.induct)
     (auto simp: is_final_char_def is_lower_def is_upper_def is_digit_def)

lemma squeeze_final: "\<forall>c\<in>set s. is_final_char c \<Longrightarrow> squeeze b s = s"
  by (induction b s rule: squeeze.induct) (auto simp: is_final_char_def is_slug_char_def)

lemma toUpperCase_final_id: "\<forall>c\<in>set s. is_final_char c \<Longrightarrow> toUpperCase s = s"
  by (auto simp: toUpperCase_def is_final_char_def is_lower_def is_upper_def is_digit_def
      intro!: map_idI)

text \<open>
  C10. \<^verbatim>\<open>toSlug\<close> is idempotent: a slug holds only upper-case letters, digits, underscores
  and dots, so trimming, both camel-case passes, the class replacement and the upper-casing
  leave it as it is, and \<open>toSlug (toSlug s) = toSlug s\<close> for every string \<open>s\<close>.
\<close>

theorem toSlug_idempotent:
  "toSlug (toSlug s) = toSlug s \<and> list_all is_final_char (toSlug s)"
proof -
  have fin: "\<forall>c\<in>set (toSlug s). is_final_char c" by (rule toSlug_final)
  have "toSlug (toSlug s) = toSlug s"
    by (simp add: toSlug_def[of "toSlug s"] trim_final[OF fin] split_camel_final[OF fin]
        squeeze_final[OF fin] toUpperCase_final_id[OF fin])
  with fin show ?thesis by (simp add: list_all_iff)
qed

text \<open>The string \<^verbatim>\<open>" fooBar-baz "\<close> becomes \<^verbatim>\<open>"FOO_BAR_BAZ"\<close>, and stays so.\<close>

theorem toSlug_idempotent_witness:
  "toSlug [32, 102, 111, 111, 66, 97, 114, 45, 98, 97, 122, 32]
     = [70, 79, 79, 95, 66, 65, 82, 95, 66, 65, 90]
   \<and> toSlug (toSlug [32, 102, 111, 111, 66, 97, 114, 45, 98, 97, 122, 32])
     = [70, 79, 79, 95, 66, 65, 82, 95, 66, 65, 90]"
proof -
  have v: "toSlug [32, 102, 111, 111, 66, 97, 114, 45, 98, 97, 122, 32]
             = [70, 79, 79, 95, 66, 65, 82, 95, 66, 65, 90]"
    by (simp add: toSlug_def trim_def toUpperCase_def
        is_white_space_def is_lower_def is_upper_def is_digit_def is_slug_char_def)
  from toSlug_idempotent[of "[32, 102, 111, 111, 66, 97, 114, 45, 98, 97, 122, 32]"] v
  show ?thesis by simp
qed


section \<open>The loop and the rules\<close>

lemma show_nat_digit: "n < 10 \<Longrightarrow> show_nat n = [''0123456789'' ! n]"
  by (simp add: show_nat.simps)


lemma first_violation_Accepted: "(first_violation xs = Accepted) = (xs = [])"
  by (cases xs) auto

lemma get_entry_upd: "get_entry (c(k \<mapsto> e)) k' = (if k' = k then e else get_entry c k')"
  by (simp add: get_entry_def)

subsection \<open>The MIME check and the design's matching\<close>

lemma test_flagless: "\<not> advancing regex \<Longrightarrow> test regex i m = (matches regex m, i)"
  by (simp add: test_def matches_def split: option.splits)

lemma test_from_start: "fst (test regex 0 m) = matches regex m"
  by (simp add: test_def matches_def split: option.splits)

lemma test_item_expression:
  assumes "expression_of item = Some regex" and "flagless_item item"
  shows "test_item item m li = (Inr (matches regex m), li)"
proof (cases item)
  case (Rx a r)
  with assms show ?thesis
    by (auto simp: test_item_def expression_of_def test_flagless)
next
  case (Str src made)
  with assms show ?thesis
    by (cases made) (auto simp: test_item_def expression_of_def test_from_start)
qed

lemma item_text_expression:
  assumes "expression_of item = Some regex"
  shows "item_text item = Inr (toString regex)"
  using assms
  by (cases item) (auto simp: item_text_def expression_of_def split: option.splits)

lemma those_Cons:
  "those (x # xs) = Some ys \<Longrightarrow> \<exists>y ys'. x = Some y \<and> those xs = Some ys' \<and> ys = y # ys'"
  by (cases x) (auto split: option.splits)

lemma some_test_expression:
  "those (map expression_of items) = Some rs \<Longrightarrow> list_all flagless_item items
     \<Longrightarrow> some_test items m li = (Inr (list_ex (\<lambda>regex. matches regex m) rs), li)"
proof (induction items arbitrary: rs)
  case Nil
  then show ?case by simp
next
  case (Cons item items)
  from Cons.prems(1) obtain r rs' where r: "expression_of item = Some r"
    and rest: "those (map expression_of items) = Some rs'" and rs: "rs = r # rs'"
    using those_Cons[of "expression_of item" "map expression_of items" rs] by auto
  from Cons.prems(2) have fl: "flagless_item item" "list_all flagless_item items" by simp_all
  from test_item_expression[OF r fl(1), of m li] Cons.IH[OF rest fl(2)] rs show ?case
    by (cases "matches r m") simp_all
qed

lemma pattern_texts_expression:
  "those (map expression_of items) = Some rs \<Longrightarrow> pattern_texts items = Inr (map toString rs)"
proof (induction items arbitrary: rs)
  case Nil
  then show ?case by simp
next
  case (Cons item items)
  from Cons.prems(1) obtain r rs' where r: "expression_of item = Some r"
    and rest: "those (map expression_of items) = Some rs'" and rs: "rs = r # rs'"
    using those_Cons[of "expression_of item" "map expression_of items" rs] by auto
  from item_text_expression[OF r] Cons.IH[OF rest] rs show ?case by simp
qed




subsection \<open>The size checks and the design's bounds\<close>





subsection \<open>One pass of the loop, by what the field has received\<close>

lemma process_field_zero:
  assumes "zero_files (get_entry (fst s) (field_name meta))"
  shows "process_field bytes meta s =
           (if truthy_bool (required (options meta))
            then (s, Rejected (''No files uploaded for field: '' @ field_name meta))
            else (((fst s)(field_name meta \<mapsto> (if isArray meta then Files [] else Undefined)),
                   snd s), Accepted))"
  using assms
  by (cases "get_entry (fst s) (field_name meta)") (simp_all add: process_field_def Let_def)

lemma process_field_files:
  assumes "get_entry (fst s) (field_name meta) = Files (f # fs)"
  shows "process_field bytes meta s =
           (if isArray meta then
              (if too_few (options meta) (Files (f # fs))
               then (s, Rejected (''Too few files uploaded for '' @ quoted (field_name meta)
                         @ ''. Minimum number: '' @ count_text (minFiles (options meta)) @ ''.''))
               else if too_many (options meta) (Files (f # fs))
               then (s, Rejected (''Too many files uploaded for '' @ quoted (field_name meta)
                         @ ''. Maximum number: '' @ count_text (maxFiles (options meta)) @ ''.''))
               else (case check_files bytes (options meta) (f # fs) (snd s) of
                       (li', r) \<Rightarrow> ((fst s, li'), r)))
            else (case check_files bytes (options meta) (f # fs) (snd s) of
                    (li', r) \<Rightarrow> (((fst s)(field_name meta \<mapsto> Single f), li'), r)))"
  using assms by (simp add: process_field_def Let_def del: check_files.simps)

lemma process_field_single:
  assumes "get_entry (fst s) (field_name meta) = Single g"
  shows "snd (process_field bytes meta s) = Threw TypeError"
  using assms by (simp add: process_field_def Let_def too_few_def too_many_def split: option.splits)

lemma process_field_cases:
  obtains (zero) "zero_files (get_entry (fst s) (field_name meta))"
  | (files) f fs where "get_entry (fst s) (field_name meta) = Files (f # fs)"
  | (single) g where "get_entry (fst s) (field_name meta) = Single g"
proof (cases "get_entry (fst s) (field_name meta)")
  case Undefined
  then show ?thesis using zero by simp
next
  case (Single g)
  then show ?thesis using single by simp
next
  case (Files fs)
  then show ?thesis using zero files by (cases fs) auto
qed

lemma process_field_frame:
  assumes "k \<noteq> field_name meta"
  shows "fst (fst (process_field bytes meta s)) k = fst s k"
proof (cases s meta rule: process_field_cases)
  case zero
  with assms show ?thesis by (simp add: process_field_zero)
next
  case (files f fs)
  with assms show ?thesis
    by (simp add: process_field_files split: prod.splits del: check_files.simps)
next
  case (single g)
  then show ?thesis by (simp add: process_field_def Let_def split: prod.splits)
qed

lemma validate_fields_append:
  "validate_fields bytes (pre @ post) s =
     (case validate_fields bytes pre s of
        (s1, Accepted) \<Rightarrow> validate_fields bytes post s1
      | (s1, r) \<Rightarrow> (s1, r))"
  by (induction pre arbitrary: s) (auto split: prod.splits outcome.splits)

lemma validate_fields_frame:
  "k \<notin> field_name ` set metas \<Longrightarrow> fst (fst (validate_fields bytes metas s)) k = fst s k"
proof (induction metas arbitrary: s)
  case Nil
  then show ?case by simp
next
  case (Cons meta metas)
  obtain s1 r1 where p: "process_field bytes meta s = (s1, r1)"
    by (cases "process_field bytes meta s") auto
  from Cons.prems have k: "k \<noteq> field_name meta" "k \<notin> field_name ` set metas" by auto
  from process_field_frame[OF k(1), of bytes s] p have s1: "fst s1 k = fst s k" by simp
  show ?case
  proof (cases r1)
    case Accepted
    with p Cons.IH[OF k(2), of s1] s1 show ?thesis by simp
  next
    case (Rejected msg)
    with p s1 show ?thesis by simp
  next
    case (Threw x)
    with p s1 show ?thesis by simp
  qed
qed

lemma process_field_zero_preserved:
  assumes "process_field bytes meta s = (s1, Accepted)"
    and "zero_files (get_entry (fst s) k)"
  shows "zero_files (get_entry (fst s1) k)"
proof (cases "k = field_name meta")
  case False
  from process_field_frame[OF False, of bytes s] assms show ?thesis
    by (simp add: get_entry_def)
next
  case True
  with assms(2) have "zero_files (get_entry (fst s) (field_name meta))" by simp
  from process_field_zero[OF this, of bytes] assms(1) True show ?thesis
    by (auto simp: get_entry_upd split: if_splits)
qed

lemma validate_fields_zero_preserved:
  "validate_fields bytes metas s = (s1, Accepted) \<Longrightarrow> zero_files (get_entry (fst s) k)
     \<Longrightarrow> zero_files (get_entry (fst s1) k)"
proof (induction metas arbitrary: s)
  case Nil
  then show ?case by simp
next
  case (Cons meta metas)
  obtain s2 r2 where p: "process_field bytes meta s = (s2, r2)"
    by (cases "process_field bytes meta s") auto
  with Cons.prems(1) have r2: "r2 = Accepted"
    by (cases r2) auto
  with p Cons.prems(1) have v: "validate_fields bytes metas s2 = (s1, Accepted)" by simp
  from process_field_zero_preserved[OF p[unfolded r2] Cons.prems(2)]
  have "zero_files (get_entry (fst s2) k)" .
  from Cons.IH[OF v this] show ?case .
qed

lemma single_stays:
  "get_entry (fst s) k = Single f \<Longrightarrow> validate_fields bytes metas s = (s', Accepted)
     \<Longrightarrow> get_entry (fst s') k = Single f"
proof (induction metas arbitrary: s)
  case Nil
  then show ?case by simp
next
  case (Cons meta metas)
  obtain s1 r1 where p: "process_field bytes meta s = (s1, r1)"
    by (cases "process_field bytes meta s") auto
  with Cons.prems(2) have r1: "r1 = Accepted" by (cases r1) auto
  with p Cons.prems(2) have v: "validate_fields bytes metas s1 = (s', Accepted)" by simp
  have "k \<noteq> field_name meta"
  proof
    assume "k = field_name meta"
    with Cons.prems(1) have "get_entry (fst s) (field_name meta) = Single f" by simp
    from process_field_single[OF this, of bytes] p r1 show False by simp
  qed
  from process_field_frame[OF this, of bytes s] p Cons.prems(1)
  have "get_entry (fst s1) k = Single f" by (simp add: get_entry_def)
  from Cons.IH[OF this v] show ?case .
qed

lemma first_file_kept:
  "get_entry (fst s) (field_name meta) = Files (f # fs) \<Longrightarrow> meta \<in> set metas
     \<Longrightarrow> \<not> isArray meta \<Longrightarrow> validate_fields bytes metas s = (s', Accepted)
     \<Longrightarrow> get_entry (fst s') (field_name meta) = Single f"
proof (induction metas arbitrary: s)
  case Nil
  then show ?case by simp
next
  case (Cons m metas)
  obtain s1 r1 where p: "process_field bytes m s = (s1, r1)"
    by (cases "process_field bytes m s") auto
  with Cons.prems(4) have r1: "r1 = Accepted" by (cases r1) auto
  with p Cons.prems(4) have v: "validate_fields bytes metas s1 = (s', Accepted)" by simp
  show ?case
  proof (cases "field_name m = field_name meta")
    case False
    then have ne: "field_name meta \<noteq> field_name m" by simp
    from process_field_frame[OF ne, of bytes s] p Cons.prems(1)
    have e: "get_entry (fst s1) (field_name meta) = Files (f # fs)" by (simp add: get_entry_def)
    from False Cons.prems(2) have "meta \<in> set metas" by auto
    from Cons.IH[OF e this Cons.prems(3) v] show ?thesis .
  next
    case True
    with Cons.prems(1) have e: "get_entry (fst s) (field_name m) = Files (f # fs)" by simp
    note pf = process_field_files[OF e, of bytes]
    show ?thesis
    proof (cases "isArray m")
      case False
      with pf p True have "get_entry (fst s1) (field_name meta) = Single f"
        by (auto simp: get_entry_upd split: prod.splits simp del: check_files.simps)
      from single_stays[OF this v] show ?thesis .
    next
      case T: True
      with pf p r1 have c1: "fst s1 = fst s"
        by (auto split: if_splits prod.splits simp del: check_files.simps)
      from T Cons.prems(3) have "m \<noteq> meta" by auto
      with Cons.prems(2) have "meta \<in> set metas" by auto
      from Cons.IH[OF _ this Cons.prems(3) v] c1 Cons.prems(1) show ?thesis by simp
    qed
  qed
qed

lemma process_field_shape:
  assumes "process_field bytes meta s = (s1, Accepted)"
  shows "fst s1 (field_name meta)
           = Some (normalized (isArray meta) (get_entry (fst s) (field_name meta)))"
proof (cases s meta rule: process_field_cases)
  case zero
  from process_field_zero[OF zero, of bytes] assms zero show ?thesis
    by (cases "get_entry (fst s) (field_name meta)" rule: zero_files.cases) (auto split: if_splits)
next
  case (files f fs)
  from process_field_files[OF files, of bytes] assms files show ?thesis
    by (auto simp: get_entry_def split: if_splits option.splits prod.splits
        simp del: check_files.simps)
next
  case (single g)
  from process_field_single[OF single, of bytes] assms show ?thesis by simp
qed

lemma validate_fields_shape:
  "distinct (map field_name metas) \<Longrightarrow> validate_fields bytes metas s = (s', Accepted)
     \<Longrightarrow> p \<in> set metas
     \<Longrightarrow> fst s' (field_name p)
         = Some (normalized (isArray p) (get_entry (fst s) (field_name p)))"
proof (induction metas arbitrary: s)
  case Nil
  then show ?case by simp
next
  case (Cons m metas)
  obtain s1 r1 where pf: "process_field bytes m s = (s1, r1)"
    by (cases "process_field bytes m s") auto
  with Cons.prems(2) have r1: "r1 = Accepted" by (cases r1) auto
  with pf Cons.prems(2) have v: "validate_fields bytes metas s1 = (s', Accepted)" by simp
  from Cons.prems(1) have d: "distinct (map field_name metas)"
    and nm: "field_name m \<notin> field_name ` set metas" by auto
  show ?case
  proof (cases "p = m")
    case True
    from validate_fields_frame[OF nm, of bytes s1] v
    have "fst s' (field_name m) = fst s1 (field_name m)" by simp
    with process_field_shape[OF pf[unfolded r1]] True show ?thesis by simp
  next
    case False
    with Cons.prems(3) have pin: "p \<in> set metas" by auto
    with nm have "field_name p \<noteq> field_name m" by (metis imageI)
    from process_field_frame[OF this, of bytes s] pf
    have "get_entry (fst s1) (field_name p) = get_entry (fst s) (field_name p)"
      by (simp add: get_entry_def)
    with Cons.IH[OF d v pin] show ?thesis by simp
  qed
qed

subsection \<open>The upload engine\<close>

lemma upload_engine_error:
  "upload_engine left parts c = (Some e, c') \<Longrightarrow> e = ''Unexpected field''"
  by (induction left parts c rule: upload_engine.induct) (auto split: if_splits)

lemma upload_engine_delivers:
  "upload_engine left parts c = (None, c') \<Longrightarrow> (\<And>k. raw_entry (c k))
     \<Longrightarrow> raw_entry (c' k)
         \<and> received (get_entry c' k)
             = received (get_entry c k) @ map snd (filter (\<lambda>p. fst p = k) parts)
         \<and> length (filter (\<lambda>p. fst p = k) parts) \<le> left k"
proof (induction left parts c rule: upload_engine.induct)
  case (1 left c)
  then show ?case by simp
next
  case (2 left name f parts c)
  from "2.prems"(1) have pos: "left name \<noteq> 0" by (auto split: if_splits)
  let ?left = "left(name := left name - 1)"
  let ?c = "c(name \<mapsto> Files (received (get_entry c name) @ [f]))"
  from "2.prems"(1) pos have run: "upload_engine ?left parts ?c = (None, c')" by simp
  have raw: "\<And>k. raw_entry (?c k)" using "2.prems"(2) by simp
  note ih = "2.IH"[OF pos run raw]
  show ?case
  proof (cases "k = name")
    case True
    with ih pos show ?thesis by (auto simp: get_entry_def)
  next
    case False
    with ih show ?thesis by (auto simp: get_entry_def)
  qed
qed

lemma filesLeft_member:
  assumes "distinct (map field_name metas)" and "meta \<in> set metas"
  shows "filesLeft (multerFields metas) (field_name meta) = maxCount meta"
proof -
  have d: "distinct (map fst (rev (multerFields metas)))"
    using assms(1) by (simp add: multerFields_def rev_map[symmetric] comp_def distinct_rev)
  have m: "(field_name meta, maxCount meta) \<in> set (rev (multerFields metas))"
    using assms(2) by (auto simp: multerFields_def)
  from map_of_is_SomeI[OF d m] show ?thesis by (simp add: filesLeft_def)
qed

lemma filesLeft_other:
  assumes "k \<notin> field_name ` set metas"
  shows "filesLeft (multerFields metas) k = 0"
proof -
  have "k \<notin> fst ` set (rev (multerFields metas))"
    using assms by (auto simp: multerFields_def)
  then have "map_of (rev (multerFields metas)) k = None" by (simp add: map_of_eq_None_iff)
  then show ?thesis by (simp add: filesLeft_def)
qed

subsection \<open>The loop and the design's rules\<close>






lemmas example_defs = no_options_def avatar_field_def docs_field_def photo_field_def
  png_file_def fresh_def

lemmas bytes_defs = bytes_parse_def parse_with_unit_def parseInt10_def is_space_char_def
  unit_factor_def lower_char_def is_digit_char_def decimal_def digit_value_def

lemmas loop_defs = UseMulter_def UseMulter_middleware_def process_field_def Let_def field_name_def
  truthy_string_def truthy_bool_def get_entry_def too_few_def too_many_def quoted_def
  count_text_def check_file_def check_minSize_def check_maxSize_def check_mimeTypes_def
  parseFileSize_def test_item_def item_text_def test_def string_item_def RegExp_of_plain_def
  global_RegExp_of_plain_def find_from_def escape_slashes_def multerFields_def maxCount_def
  filesLeft_def


section \<open>Missing required field\<close>

text \<open>
  C1, as amended. In the callback of the upload engine, for a container that is present:
  when the fields declared before a required field pass and the container holds no file
  under the required field's name (the property is absent, \<^verbatim>\<open>undefined\<close> or an empty
  array), the middleware passes on the engine's error if there is one, and otherwise rejects
  with \<^verbatim>\<open>No files uploaded for field: <fieldName>\<close>, whatever is declared after the
  field and whatever the container holds for it. The container is then as the earlier
  fields left it.
\<close>

theorem required_field_without_files:
  assumes req: "truthy_bool (required (options meta))"
    and zero: "zero_files (get_entry c (field_name meta))"
    and pre: "snd (validate_fields bytes pre (c, li)) = Accepted"
  shows "UseMulter bytes (pre @ meta # post) err (Some c) li
           = (case err of
                Some e \<Rightarrow> ((Some c, li), Rejected e)
              | None \<Rightarrow>
                  ((Some (fst (fst (validate_fields bytes pre (c, li)))),
                    snd (fst (validate_fields bytes pre (c, li)))),
                   Rejected (''No files uploaded for field: '' @ field_name meta)))"
proof (cases err)
  case (Some e)
  then show ?thesis by (simp add: UseMulter_def)
next
  case None
  obtain s1 where v: "validate_fields bytes pre (c, li) = (s1, Accepted)"
    using pre by (cases "validate_fields bytes pre (c, li)") auto
  from validate_fields_zero_preserved[OF v] zero
  have z: "zero_files (get_entry (fst s1) (field_name meta))" by simp
  from process_field_zero[OF z, of bytes] req
  have "process_field bytes meta s1
          = (s1, Rejected (''No files uploaded for field: '' @ field_name meta))" by simp
  with v None show ?thesis
    by (cases s1) (simp add: UseMulter_def validate_fields_append)
qed

text \<open>
  \<^verbatim>\<open>docs\<close> passes with two files and \<^verbatim>\<open>avatar\<close>, required, has none; with an error of
  the engine, that error is the outcome.
\<close>

theorem required_field_without_files_witness:
  "snd (UseMulter bytes_parse [docs_field, avatar_field] None
          (Some (map_of [(''docs'', Files [png_file ''a.png'' 10, png_file ''b.png'' 20])])) fresh)
     = Rejected ''No files uploaded for field: avatar''
   \<and> snd (UseMulter bytes_parse [docs_field, avatar_field] (Some ''Unexpected field'')
          (Some (map_of [(''docs'', Files [png_file ''a.png'' 10, png_file ''b.png'' 20])])) fresh)
     = Rejected ''Unexpected field''"
proof -
  let ?c = "map_of [(''docs'', Files [png_file ''a.png'' 10, png_file ''b.png'' 20])]"
  have req: "truthy_bool (required (options avatar_field))"
    by (simp add: truthy_bool_def example_defs)
  have zero: "zero_files (get_entry ?c (field_name avatar_field))"
    by (simp add: loop_defs example_defs)
  have pre: "snd (validate_fields bytes_parse [docs_field] (?c, fresh)) = Accepted"
    by (simp add: loop_defs example_defs)
  have name: "field_name avatar_field = ''avatar''"
    by (simp add: loop_defs example_defs)
  from required_field_without_files[OF req zero pre, of "[]" None]
    required_field_without_files[OF req zero pre, of "[]" "Some ''Unexpected field''"] name
  show ?thesis by simp
qed

text \<open>
  The claim as first stated fails: without \<^verbatim>\<open>req.files\<close> (a request that is not
  multipart) the loop is skipped and the request is accepted; a violation of a field
  declared earlier is reported instead; and a file under a name that is not declared makes
  the engine's error the outcome.
\<close>

theorem required_field_counterexample:
  "snd (UseMulter bytes_parse [avatar_field] None None fresh) = Accepted
   \<and> snd (UseMulter_middleware bytes_parse [avatar_field] NotMultipart fresh) = Accepted
   \<and> snd (UseMulter bytes_parse [docs_field, avatar_field] None
            (Some (map_of [(''docs'', Files [png_file ''a.png'' 10])])) fresh)
       = Rejected ''Too few files uploaded for 'docs'. Minimum number: 2.''
   \<and> snd (UseMulter_middleware bytes_parse [docs_field, avatar_field]
            (Multipart [(''docs'', png_file ''a.png'' 10)]) fresh)
       = Rejected ''Too few files uploaded for 'docs'. Minimum number: 2.''
   \<and> snd (UseMulter_middleware bytes_parse [docs_field, avatar_field]
            (Multipart [(''notes'', png_file ''a.png'' 10)]) fresh)
       = Rejected ''Unexpected field''"
  by (simp add: loop_defs example_defs show_nat_digit)

section \<open>First violation, declaration order\<close>



section \<open>Scalar fields\<close>

lemma upload_engine_full:
  assumes "left k < length (filter (\<lambda>p. fst p = k) parts)" and "\<And>k. raw_entry (c k)"
  shows "fst (upload_engine left parts c) = Some ''Unexpected field''"
proof (cases "upload_engine left parts c")
  case (Pair err c')
  show ?thesis
  proof (cases err)
    case None
    from upload_engine_delivers[OF Pair[unfolded None] assms(2), of k] assms(1)
    show ?thesis by simp
  next
    case (Some e)
    with upload_engine_error[of left parts c e c'] Pair show ?thesis by simp
  qed
qed

text \<open>
  C2, as amended. For a scalar field among declarations with distinct field names, the
  upload engine is given \<^verbatim>\<open>maxCount\<close> 1: a request that carries two or more files under
  the field's name is rejected with the engine's error \<^verbatim>\<open>Unexpected field\<close>, before any
  validation; and when a request that carries a file under the field's name is accepted, it
  carried exactly one file under that name, and that file is what the field's property
  holds afterwards.
\<close>

theorem scalar_field_single_file:
  assumes dist: "distinct (map field_name fileFields)"
    and mem: "meta \<in> set fileFields"
    and scalar: "\<not> isArray meta"
    and got: "map snd (filter (\<lambda>p. fst p = field_name meta) parts) = f # rest"
  shows "(rest \<noteq> [] \<longrightarrow>
            snd (UseMulter_middleware bytes fileFields (Multipart parts) li)
              = Rejected ''Unexpected field'')
         \<and> (snd (UseMulter_middleware bytes fileFields (Multipart parts) li) = Accepted \<longrightarrow>
              rest = []
              \<and> map_option (\<lambda>c. c (field_name meta))
                   (fst (fst (UseMulter_middleware bytes fileFields (Multipart parts) li)))
                  = Some (Some (Single f)))"
proof -
  let ?left = "filesLeft (multerFields fileFields)"
  let ?k = "field_name meta"
  have raw0: "\<And>k. raw_entry (Map.empty k)" by simp
  from filesLeft_member[OF dist mem] scalar have one: "?left ?k = 1" by (simp add: maxCount_def)
  from got have len: "length (filter (\<lambda>p. fst p = ?k) parts) = Suc (length rest)"
    using length_map[of snd "filter (\<lambda>p. fst p = ?k) parts"] by simp
  obtain err c where e: "upload_engine ?left parts Map.empty = (err, c)"
    by (cases "upload_engine ?left parts Map.empty") auto
  show ?thesis
  proof (cases err)
    case (Some msg)
    with upload_engine_error[of ?left parts Map.empty msg c] e
    have "msg = ''Unexpected field''" by simp
    with e Some show ?thesis by (simp add: UseMulter_middleware_def UseMulter_def)
  next
    case None
    note del = upload_engine_delivers[OF e[unfolded None] raw0, of ?k]
    from del one len have rest: "rest = []" by simp
    from del got rest have rec: "received (get_entry c ?k) = [f]" by (simp add: get_entry_def)
    from del have "raw_entry (c ?k)" by simp
    with rec have files: "get_entry c ?k = Files [f]"
      by (cases "c ?k" rule: raw_entry.cases) (auto simp: get_entry_def)
    have kept: "snd (validate_fields bytes fileFields (c, li)) = Accepted
                  \<Longrightarrow> fst (fst (validate_fields bytes fileFields (c, li))) ?k = Some (Single f)"
    proof -
      assume acc: "snd (validate_fields bytes fileFields (c, li)) = Accepted"
      obtain s' where v: "validate_fields bytes fileFields (c, li) = (s', Accepted)"
        using acc by (cases "validate_fields bytes fileFields (c, li)") auto
      from files have "get_entry (fst (c, li)) ?k = Files (f # [])" by simp
      from first_file_kept[OF this mem scalar v]
      have "get_entry (fst s') ?k = Single f" .
      then have "fst s' ?k = Some (Single f)"
        by (cases "fst s' ?k") (auto simp: get_entry_def)
      with v show ?thesis by simp
    qed
    from e None rest kept show ?thesis
      by (cases "validate_fields bytes fileFields (c, li)")
         (auto simp: UseMulter_middleware_def UseMulter_def)
  qed
qed

text \<open>
  Two files under \<^verbatim>\<open>avatar\<close> are refused; one is accepted and kept as the file itself.
\<close>

theorem scalar_field_single_file_witness:
  "snd (UseMulter_middleware bytes_parse [avatar_field]
          (Multipart [(''avatar'', png_file ''a.png'' 10), (''avatar'', png_file ''b.png'' 20)])
          fresh)
     = Rejected ''Unexpected field''
   \<and> snd (UseMulter_middleware bytes_parse [avatar_field]
          (Multipart [(''avatar'', png_file ''a.png'' 10)]) fresh)
     = Accepted
   \<and> map_option (\<lambda>c. c ''avatar'')
        (fst (fst (UseMulter_middleware bytes_parse [avatar_field]
                     (Multipart [(''avatar'', png_file ''a.png'' 10)]) fresh)))
     = Some (Some (Single (png_file ''a.png'' 10)))"
proof -
  have name: "field_name avatar_field = ''avatar''" by (simp add: loop_defs example_defs)
  have dist: "distinct (map field_name [avatar_field])" by simp
  have mem: "avatar_field \<in> set [avatar_field]" by simp
  have scalar: "\<not> isArray avatar_field" by (simp add: example_defs)
  have two: "map snd (filter (\<lambda>p. fst p = field_name avatar_field)
                 [(''avatar'', png_file ''a.png'' 10), (''avatar'', png_file ''b.png'' 20)])
               = png_file ''a.png'' 10 # [png_file ''b.png'' 20]"
    by (simp add: name)
  have one: "map snd (filter (\<lambda>p. fst p = field_name avatar_field)
                 [(''avatar'', png_file ''a.png'' 10)])
               = png_file ''a.png'' 10 # []"
    by (simp add: name)
  have acc: "snd (UseMulter_middleware bytes_parse [avatar_field]
          (Multipart [(''avatar'', png_file ''a.png'' 10)]) fresh) = Accepted"
    by (simp add: loop_defs example_defs bytes_defs)
  from scalar_field_single_file[OF dist mem scalar two, of bytes_parse fresh]
    scalar_field_single_file[OF dist mem scalar one, of bytes_parse fresh] acc name
  show ?thesis by simp
qed

text \<open>
  The claim as first stated fails: a request with one valid file under \<^verbatim>\<open>avatar\<close> is
  accepted, and the same request with a second valid file is rejected, because of the
  second file.
\<close>

theorem extra_file_counterexample:
  "snd (UseMulter_middleware bytes_parse [avatar_field]
          (Multipart [(''avatar'', png_file ''a.png'' 10)]) fresh)
     = Accepted
   \<and> snd (UseMulter_middleware bytes_parse [avatar_field]
          (Multipart [(''avatar'', png_file ''a.png'' 10), (''avatar'', png_file ''b.png'' 20)])
          fresh)
     = Rejected ''Unexpected field''"
  by (simp add: loop_defs example_defs bytes_defs)

section \<open>Write-back before a rejection\<close>

text \<open>
  C9. The write-back is not undone by a rejection. With distinct field names, when the
  fields declared before \<open>meta\<close> pass and \<open>meta\<close> is rejected, the middleware reports
  that rejection, and in the container it leaves behind every earlier field's property holds
  the normalized shape (the first file for a scalar field, the array for an array field,
  \<^verbatim>\<open>undefined\<close> or the empty array for a field without files), not the parser's grouping.
\<close>

theorem write_back_survives_rejection:
  assumes dist: "distinct (map field_name (pre @ [meta]))"
    and pre: "snd (validate_fields bytes pre (c, li)) = Accepted"
    and rej: "snd (process_field bytes meta (fst (validate_fields bytes pre (c, li))))
                = Rejected msg"
  shows "snd (UseMulter bytes (pre @ meta # post) None (Some c) li) = Rejected msg
         \<and> (\<exists>c'. fst (fst (UseMulter bytes (pre @ meta # post) None (Some c) li)) = Some c'
                \<and> list_all (\<lambda>p. c' (field_name p)
                                  = Some (normalized (isArray p) (get_entry c (field_name p)))) pre)"
proof -
  obtain s1 where v: "validate_fields bytes pre (c, li) = (s1, Accepted)"
    using pre by (cases "validate_fields bytes pre (c, li)") auto
  obtain s2 where p: "process_field bytes meta s1 = (s2, Rejected msg)"
    using rej v by (cases "process_field bytes meta s1") auto
  from v p have run: "validate_fields bytes (pre @ meta # post) (c, li) = (s2, Rejected msg)"
    by (simp add: validate_fields_append)
  from dist have d: "distinct (map field_name pre)" by simp
  have "list_all (\<lambda>p. fst s2 (field_name p)
                       = Some (normalized (isArray p) (get_entry c (field_name p)))) pre"
    unfolding list_all_iff
  proof
    fix q assume q: "q \<in> set pre"
    from dist have "field_name meta \<notin> field_name ` set pre" by simp
    with q have "field_name q \<noteq> field_name meta" by (metis imageI)
    from process_field_frame[OF this, of bytes s1] p
    have "fst s2 (field_name q) = fst s1 (field_name q)" by simp
    with validate_fields_shape[OF d v q]
    show "fst s2 (field_name q) = Some (normalized (isArray q) (get_entry c (field_name q)))"
      by simp
  qed
  with run show ?thesis by (cases s2) (simp add: UseMulter_def)
qed

text \<open>
  \<^verbatim>\<open>docs\<close> is rejected, and \<^verbatim>\<open>avatar\<close> already holds the file itself instead of the
  one-element array the parser made.
\<close>

theorem write_back_survives_rejection_witness:
  "snd (UseMulter bytes_parse [avatar_field, docs_field] None
          (Some (map_of [(''avatar'', Files [png_file ''a.png'' 500000]),
                         (''docs'', Files [png_file ''b.png'' 10])])) fresh)
     = Rejected ''Too few files uploaded for 'docs'. Minimum number: 2.''
   \<and> map_option (\<lambda>c'. c' ''avatar'')
        (fst (fst (UseMulter bytes_parse [avatar_field, docs_field] None
          (Some (map_of [(''avatar'', Files [png_file ''a.png'' 500000]),
                         (''docs'', Files [png_file ''b.png'' 10])])) fresh)))
     = Some (Some (Single (png_file ''a.png'' 500000)))"
proof -
  let ?c = "map_of [(''avatar'', Files [png_file ''a.png'' 500000]),
                    (''docs'', Files [png_file ''b.png'' 10])]"
  have names: "field_name avatar_field = ''avatar''" "field_name docs_field = ''docs''"
    by (simp_all add: loop_defs example_defs)
  have dist: "distinct (map field_name ([avatar_field] @ [docs_field]))"
    by (simp add: names)
  have pre: "snd (validate_fields bytes_parse [avatar_field] (?c, fresh)) = Accepted"
    by (simp add: loop_defs example_defs bytes_defs)
  have rej: "snd (process_field bytes_parse docs_field
                (fst (validate_fields bytes_parse [avatar_field] (?c, fresh))))
             = Rejected ''Too few files uploaded for 'docs'. Minimum number: 2.''"
    by (simp add: loop_defs example_defs bytes_defs show_nat_digit)
  have shape: "normalized (isArray avatar_field) (get_entry ?c (field_name avatar_field))
                 = Single (png_file ''a.png'' 500000)"
    by (simp add: loop_defs example_defs)
  from write_back_survives_rejection[OF dist pre rej, of "[]"] shape names
  show ?thesis by auto
qed

section \<open>Size bounds\<close>

text \<open>
  C7. \<^verbatim>\<open>parseFileSize\<close> returns a number unchanged and parses \<^verbatim>\<open>"1KB"\<close> to 1024; a file
  whose size equals the parsed \<^verbatim>\<open>minSize\<close> passes the minimum check and one whose size
  equals the parsed \<^verbatim>\<open>maxSize\<close> passes the maximum check; the minimum check rejects only a
  size strictly below the bound and the maximum check only a size strictly above it.
\<close>

theorem size_bounds_inclusive:
  "parseFileSize bytes (Inr n) = n
   \<and> parseFileSize bytes_parse (Inl ''1KB'') = Num 1024
   \<and> (minSize opts = Some s \<and> parseFileSize bytes (Inl s) = Num (int (file_size f))
        \<longrightarrow> check_minSize bytes opts f = Accepted)
   \<and> (maxSize opts = Some s \<and> parseFileSize bytes (Inl s) = Num (int (file_size f))
        \<longrightarrow> check_maxSize bytes opts f = Accepted)
   \<and> (check_minSize bytes opts f = Rejected msg
        \<longrightarrow> (\<exists>t b. minSize opts = Some t \<and> parseFileSize bytes (Inl t) = Num b
                   \<and> int (file_size f) < b))
   \<and> (check_maxSize bytes opts f = Rejected msg
        \<longrightarrow> (\<exists>t b. maxSize opts = Some t \<and> parseFileSize bytes (Inl t) = Num b
                   \<and> b < int (file_size f)))"
proof -
  have kb: "parseFileSize bytes_parse (Inl ''1KB'') = Num 1024"
    by (simp add: parseFileSize_def bytes_defs)
  have lo: "check_minSize bytes opts f = Rejected msg
        \<longrightarrow> (\<exists>t b. minSize opts = Some t \<and> parseFileSize bytes (Inl t) = Num b
                   \<and> int (file_size f) < b)"
    by (cases "minSize opts")
       (auto simp: check_minSize_def split: if_splits elim: num_less.elims)
  have hi: "check_maxSize bytes opts f = Rejected msg
        \<longrightarrow> (\<exists>t b. maxSize opts = Some t \<and> parseFileSize bytes (Inl t) = Num b
                   \<and> b < int (file_size f))"
    by (cases "maxSize opts")
       (auto simp: check_maxSize_def split: if_splits elim: num_greater.elims)
  show ?thesis
    using kb lo hi by (simp add: parseFileSize_def check_minSize_def check_maxSize_def)
qed

text \<open>With both bounds at \<^verbatim>\<open>"1KB"\<close>: 1024 bytes pass, 1023 are too small, 1025 too large.\<close>

theorem size_bounds_inclusive_witness:
  "parseFileSize bytes_parse (Inl ''1KB'') = Num 1024
   \<and> snd (check_file bytes_parse
        (no_options\<lparr>minSize := Some ''1KB'', maxSize := Some ''1KB''\<rparr>) (png_file ''a.png'' 1024)
        fresh)
      = Accepted
   \<and> snd (check_file bytes_parse
        (no_options\<lparr>minSize := Some ''1KB'', maxSize := Some ''1KB''\<rparr>) (png_file ''a.png'' 1023)
        fresh)
      = Rejected ''File a.png is too small. Minimum size is 1KB.''
   \<and> snd (check_file bytes_parse
        (no_options\<lparr>minSize := Some ''1KB'', maxSize := Some ''1KB''\<rparr>) (png_file ''a.png'' 1025)
        fresh)
      = Rejected ''File a.png is too large. Maximum size is 1KB.''"
proof -
  let ?opts = "no_options\<lparr>minSize := Some ''1KB'', maxSize := Some ''1KB''\<rparr>"
  from size_bounds_inclusive[of bytes_parse "Num 0" ?opts "''1KB''" "png_file ''a.png'' 1024" "[]"]
  have kb: "parseFileSize bytes_parse (Inl ''1KB'') = Num 1024"
    and lo: "check_minSize bytes_parse ?opts (png_file ''a.png'' 1024) = Accepted"
    and hi: "check_maxSize bytes_parse ?opts (png_file ''a.png'' 1024) = Accepted"
    by (simp_all add: example_defs)
  have mime: "check_mimeTypes ?opts (png_file ''a.png'' 1024) fresh = (fresh, Accepted)"
    by (simp add: check_mimeTypes_def example_defs)
  have others: "snd (check_file bytes_parse ?opts (png_file ''a.png'' 1023) fresh)
      = Rejected ''File a.png is too small. Minimum size is 1KB.''"
    "snd (check_file bytes_parse ?opts (png_file ''a.png'' 1025) fresh)
      = Rejected ''File a.png is too large. Maximum size is 1KB.''"
    by (simp_all add: loop_defs example_defs bytes_defs)
  from kb lo hi mime others show ?thesis by (simp add: check_file_def)
qed

section \<open>MIME patterns\<close>

lemma find_in_occurs: "(find_in p s \<noteq> None) = occurs_in p s"
  by (induction s) auto

lemma find_from_start: "(find_from p 0 s \<noteq> None) = occurs_in p s"
  using find_in_occurs[of p s] by (simp add: find_from_def)

text \<open>
  C3, as amended. When every string among the patterns is a pattern and no \<^verbatim>\<open>RegExp\<close>
  object among them carries \<^verbatim>\<open>g\<close> or \<^verbatim>\<open>y\<close>, a file passes the MIME check exactly when the
  expression of at least one pattern matches its declared MIME type, and is otherwise
  rejected with the message that lists the patterns; the stored \<^verbatim>\<open>lastIndex\<close> values are
  left as they were. A string is given to \<^verbatim>\<open>new RegExp\<close> as it is, with no anchor: for a
  plain source the file passes exactly when its MIME type contains the source.
\<close>

theorem mime_check_any_pattern:
  assumes items: "mimeTypes opts = Some items" "items \<noteq> []"
    and valid: "those (map expression_of items) = Some rs"
    and fl: "list_all flagless_item items"
  shows "check_mimeTypes opts f li
           = (li, if list_ex (\<lambda>regex. matches regex (mimetype f)) rs then Accepted
                  else Rejected (''File '' @ originalname f @ '' has invalid type ('' @ mimetype f
                                 @ ''). Allowed: '' @ join '', '' (map toString rs) @ ''.''))
         \<and> (plain_source src \<longrightarrow>
              (check_mimeTypes (opts\<lparr>mimeTypes := Some [string_item src]\<rparr>) f li = (li, Accepted))
                = occurs_in src (mimetype f))"
proof -
  from some_test_expression[OF valid fl, of "mimetype f" li] pattern_texts_expression[OF valid] items
  have first: "check_mimeTypes opts f li
           = (li, if list_ex (\<lambda>regex. matches regex (mimetype f)) rs then Accepted
                  else Rejected (''File '' @ originalname f @ '' has invalid type ('' @ mimetype f
                                 @ ''). Allowed: '' @ join '', '' (map toString rs) @ ''.''))"
    by (simp add: check_mimeTypes_def)
  have second: "(check_mimeTypes (opts\<lparr>mimeTypes := Some [string_item src]\<rparr>) f li = (li, Accepted))
                = occurs_in src (mimetype f)"
    using find_from_start[of src "mimetype f"]
    by (auto simp: check_mimeTypes_def test_item_def test_def item_text_def string_item_def
        RegExp_of_plain_def split: option.splits)
  from first second show ?thesis by simp
qed

text \<open>
  Against \<^verbatim>\<open>"image/png"\<close> and \<^verbatim>\<open>"image/jpeg"\<close>: \<^verbatim>\<open>image/jpeg\<close> passes, \<^verbatim>\<open>text/plain\<close> is
  rejected, and \<^verbatim>\<open>ximage/pngy\<close>, which contains the first source, passes.
\<close>

theorem mime_check_any_pattern_witness:
  "snd (check_mimeTypes (options avatar_field)
          \<lparr>originalname = ''a.jpg'', mimetype = ''image/jpeg'', file_size = 1\<rparr> fresh)
     = Accepted
   \<and> snd (check_mimeTypes (options avatar_field)
          \<lparr>originalname = ''a.txt'', mimetype = ''text/plain'', file_size = 1\<rparr> fresh)
     = Rejected (''File a.txt has invalid type (text/plain). Allowed: /image'' @ [CHR 0x5C]
                 @ ''/png/, /image'' @ [CHR 0x5C] @ ''/jpeg/.'')
   \<and> plain_source ''image/png''
   \<and> occurs_in ''image/png'' ''ximage/pngy''
   \<and> check_mimeTypes (no_options\<lparr>mimeTypes := Some [string_item ''image/png'']\<rparr>)
        \<lparr>originalname = ''x.bin'', mimetype = ''ximage/pngy'', file_size = 1\<rparr> fresh
      = (fresh, Accepted)"
proof -
  let ?items = "[string_item ''image/png'', string_item ''image/jpeg'']"
  let ?rs = "[RegExp_of_plain ''image/png'', RegExp_of_plain ''image/jpeg'']"
  have items: "mimeTypes (options avatar_field) = Some ?items" "?items \<noteq> []"
    by (simp_all add: example_defs)
  have valid: "those (map expression_of ?items) = Some ?rs"
    by (simp add: expression_of_def string_item_def)
  have fl: "list_all flagless_item ?items" by (simp add: string_item_def)
  have plain: "plain_source ''image/png''" by (simp add: plain_source_def is_plain_char_def)
  have occ: "occurs_in ''image/png'' ''ximage/pngy''" by simp
  from mime_check_any_pattern[OF items valid fl,
      of "\<lparr>originalname = ''a.jpg'', mimetype = ''image/jpeg'', file_size = 1\<rparr>" fresh
         "''image/png''"]
  have a: "snd (check_mimeTypes (options avatar_field)
          \<lparr>originalname = ''a.jpg'', mimetype = ''image/jpeg'', file_size = 1\<rparr> fresh)
     = Accepted"
    by (simp add: matches_def RegExp_of_plain_def find_from_def)
  from mime_check_any_pattern[OF items valid fl,
      of "\<lparr>originalname = ''a.txt'', mimetype = ''text/plain'', file_size = 1\<rparr>" fresh
         "''image/png''"]
  have b: "snd (check_mimeTypes (options avatar_field)
          \<lparr>originalname = ''a.txt'', mimetype = ''text/plain'', file_size = 1\<rparr> fresh)
     = Rejected (''File a.txt has invalid type (text/plain). Allowed: /image'' @ [CHR 0x5C]
                 @ ''/png/, /image'' @ [CHR 0x5C] @ ''/jpeg/.'')"
    by (simp add: matches_def RegExp_of_plain_def find_from_def escape_slashes_def)
  have items': "mimeTypes (no_options\<lparr>mimeTypes := Some ?items\<rparr>) = Some ?items" by simp
  from mime_check_any_pattern[OF items' items(2) valid fl,
      of "\<lparr>originalname = ''x.bin'', mimetype = ''ximage/pngy'', file_size = 1\<rparr>" fresh
         "''image/png''"] plain occ
  have c: "check_mimeTypes (no_options\<lparr>mimeTypes := Some [string_item ''image/png'']\<rparr>)
        \<lparr>originalname = ''x.bin'', mimetype = ''ximage/pngy'', file_size = 1\<rparr> fresh
      = (fresh, Accepted)"
    by simp
  from a b c plain occ show ?thesis by simp
qed

text \<open>
  The claim as first stated fails: a MIME type that only contains the literal passes. The
  equivalence itself fails for an object with the \<^verbatim>\<open>g\<close> flag, whose second test starts
  where the first match ended (the second PNG file is rejected), and for a string that is
  not a pattern, where \<^verbatim>\<open>SyntaxError\<close> escapes although a later pattern matches.
\<close>

theorem unanchored_pattern_counterexample:
  "snd (UseMulter_middleware bytes_parse [avatar_field]
          (Multipart [(''avatar'',
             \<lparr>originalname = ''x.bin'', mimetype = ''ximage/pngy'', file_size = 1\<rparr>)]) fresh)
     = Accepted
   \<and> snd (UseMulter_middleware bytes_parse
          [docs_field\<lparr>options := no_options\<lparr>mimeTypes :=
              Some [Rx 0 (global_RegExp_of_plain ''image/png'')]\<rparr>\<rparr>]
          (Multipart [(''docs'', png_file ''a.png'' 10), (''docs'', png_file ''b.png'' 10)]) fresh)
     = Rejected (''File b.png has invalid type (image/png). Allowed: /image'' @ [CHR 0x5C]
                 @ ''/png/g.'')
   \<and> snd (UseMulter_middleware bytes_parse
          [docs_field\<lparr>options := no_options\<lparr>mimeTypes :=
              Some [Str ''('' None, string_item ''image/png'']\<rparr>\<rparr>]
          (Multipart [(''docs'', png_file ''a.png'' 10)]) fresh)
     = Threw SyntaxError"
  by (simp add: loop_defs example_defs bytes_defs)

section \<open>Unparsable size strings\<close>

text \<open>
  C4, as amended. A size string that the parser cannot read raises no error when the field
  is declared: \<^verbatim>\<open>IsFile\<close> and \<^verbatim>\<open>IsFiles\<close> store the options as they are written, and the
  schema part of \<^verbatim>\<open>UseMulter\<close> returns a schema whenever the class has one.
  \<^verbatim>\<open>parseFileSize\<close> runs for each file of each request, gives \<^verbatim>\<open>NaN\<close> for such a string,
  and both comparisons with \<^verbatim>\<open>NaN\<close> being false, the check of that bound accepts every
  file: a request with one file under a field declared with such a \<^verbatim>\<open>maxSize\<close> alone is
  accepted.
\<close>

theorem unparsable_size_accepts:
  assumes "bytes s = None"
  shows "getFileFieldsMetadata (IsFile (opts\<lparr>maxSize := Some s\<rparr>) key cls)
           = getFileFieldsMetadata cls
             @ [\<lparr>propertyKey = key, isArray = False, options = opts\<lparr>maxSize := Some s\<rparr>\<rparr>]
         \<and> getFileFieldsMetadata (IsFiles (opts\<lparr>minSize := Some s\<rparr>) key cls)
           = getFileFieldsMetadata cls
             @ [\<lparr>propertyKey = key, isArray = True, options = opts\<lparr>minSize := Some s\<rparr>\<rparr>]
         \<and> (\<exists>schema. UseMulter_schema dto_name (Some properties)
                        (getFileFieldsMetadata (IsFile (opts\<lparr>maxSize := Some s\<rparr>) key cls))
                      = Inr schema)
         \<and> parseFileSize bytes (Inl s) = NaN
         \<and> check_minSize bytes (opts\<lparr>minSize := Some s\<rparr>) f = Accepted
         \<and> check_maxSize bytes (opts\<lparr>maxSize := Some s\<rparr>) f = Accepted
         \<and> snd (UseMulter_middleware bytes
                  (getFileFieldsMetadata
                     (IsFile (no_options\<lparr>maxSize := Some s\<rparr>) key
                        \<lparr>file_fields = [], validation = [], json_schemas = []\<rparr>))
                  (Multipart [(key, f)]) li)
             = Accepted"
proof -
  have reg: "getFileFieldsMetadata (IsFile (opts\<lparr>maxSize := Some s\<rparr>) key cls)
           = getFileFieldsMetadata cls
             @ [\<lparr>propertyKey = key, isArray = False, options = opts\<lparr>maxSize := Some s\<rparr>\<rparr>]"
    "getFileFieldsMetadata (IsFiles (opts\<lparr>minSize := Some s\<rparr>) key cls)
           = getFileFieldsMetadata cls
             @ [\<lparr>propertyKey = key, isArray = True, options = opts\<lparr>minSize := Some s\<rparr>\<rparr>]"
    by (simp_all add: IsFile_def IsFiles_def storeFileFieldMetadata_def getFileFieldsMetadata_def
        Let_def)
  have schema: "\<exists>schema. UseMulter_schema dto_name (Some properties)
                        (getFileFieldsMetadata (IsFile (opts\<lparr>maxSize := Some s\<rparr>) key cls))
                      = Inr schema"
    by (simp add: UseMulter_schema_def)
  have checks: "parseFileSize bytes (Inl s) = NaN"
    "check_minSize bytes (opts\<lparr>minSize := Some s\<rparr>) f = Accepted"
    "check_maxSize bytes (opts\<lparr>maxSize := Some s\<rparr>) f = Accepted"
    using assms by (simp_all add: parseFileSize_def check_minSize_def check_maxSize_def)
  have fields: "getFileFieldsMetadata
                     (IsFile (no_options\<lparr>maxSize := Some s\<rparr>) key
                        \<lparr>file_fields = [], validation = [], json_schemas = []\<rparr>)
                 = [\<lparr>propertyKey = key, isArray = False,
                     options = no_options\<lparr>maxSize := Some s\<rparr>\<rparr>]"
    by (simp add: IsFile_def storeFileFieldMetadata_def getFileFieldsMetadata_def Let_def)
  have run: "snd (UseMulter_middleware bytes
                  [\<lparr>propertyKey = key, isArray = False,
                     options = no_options\<lparr>maxSize := Some s\<rparr>\<rparr>]
                  (Multipart [(key, f)]) li)
             = Accepted"
    using assms by (simp add: loop_defs no_options_def)
  from reg schema checks fields run show ?thesis by simp
qed

text \<open>
  \<^verbatim>\<open>"five MB"\<close> is not read by the parser; the declaration keeps it, and a file of nine
  gigabytes is accepted.
\<close>

theorem unparsable_size_accepts_witness:
  "bytes_parse ''five MB'' = None
   \<and> map maxSize (map options (getFileFieldsMetadata
        (IsFile (no_options\<lparr>maxSize := Some ''five MB''\<rparr>) ''avatar''
           \<lparr>file_fields = [], validation = [], json_schemas = []\<rparr>)))
      = [Some ''five MB'']
   \<and> parseFileSize bytes_parse (Inl ''five MB'') = NaN
   \<and> check_minSize bytes_parse (no_options\<lparr>minSize := Some ''five MB''\<rparr>) (png_file ''a.png'' 0)
      = Accepted
   \<and> snd (UseMulter_middleware bytes_parse
           (getFileFieldsMetadata
              (IsFile (no_options\<lparr>maxSize := Some ''five MB''\<rparr>) ''avatar''
                 \<lparr>file_fields = [], validation = [], json_schemas = []\<rparr>))
           (Multipart [(''avatar'', png_file ''a.png'' 9000000000)]) fresh)
      = Accepted"
proof -
  have n: "bytes_parse ''five MB'' = None" by (simp add: bytes_defs)
  from unparsable_size_accepts[of bytes_parse "''five MB''" no_options "''avatar''"
        "\<lparr>file_fields = [], validation = [], json_schemas = []\<rparr>" "[]" None
        "png_file ''a.png'' 0" fresh]
    unparsable_size_accepts[of bytes_parse "''five MB''" no_options "''avatar''"
        "\<lparr>file_fields = [], validation = [], json_schemas = []\<rparr>" "[]" None
        "png_file ''a.png'' 9000000000" fresh] n
  show ?thesis by (simp add: getFileFieldsMetadata_def)
qed

text \<open>
  The claim as first stated fails: with \<^verbatim>\<open>maxSize: "five MB"\<close> a file of nine gigabytes is
  accepted, and with \<^verbatim>\<open>maxSize: "5 megabytes"\<close>, read as 5 bytes, a file of a hundred
  bytes is rejected, both while a request is validated.
\<close>

theorem unparsable_size_counterexample:
  "bytes_parse ''five MB'' = None
   \<and> snd (UseMulter_middleware bytes_parse
           [avatar_field\<lparr>options := no_options\<lparr>maxSize := Some ''five MB''\<rparr>\<rparr>]
           (Multipart [(''avatar'', png_file ''a.png'' 9000000000)]) fresh)
      = Accepted
   \<and> bytes_parse ''5 megabytes'' = Some 5
   \<and> snd (UseMulter_middleware bytes_parse
           [avatar_field\<lparr>options := no_options\<lparr>maxSize := Some ''5 megabytes''\<rparr>\<rparr>]
           (Multipart [(''avatar'', png_file ''a.png'' 100)]) fresh)
      = Rejected ''File a.png is too large. Maximum size is 5 megabytes.''"
  by (simp add: loop_defs example_defs bytes_defs)

section \<open>Cardinality of an array field\<close>





section \<open>The batch of type-resolution tasks\<close>

lemma tasks_apply_type: "apply_type decorate k a ty w = (r, w') \<Longrightarrow> tasks w' = tasks w"
  by (auto simp: apply_type_def ApplyJsonSchemaType_def split: option.splits)

lemma IsEntity_tasks:
  assumes "IsEntity decorate ref a k w = Inr w'"
  shows "tasks w' = tasks w
         \<or> (\<exists>t. tasks w' = tasks w @ [t] \<and> not_rejected t
                \<and> (settles (ref, a, k) \<longrightarrow> t = Fulfilled ()))"
proof (cases ref)
  case (Direct ty)
  with assms show ?thesis
    by (auto simp: IsEntity_def split: prod.splits sum.splits dest: tasks_apply_type)
next
  case (Deferred p)
  show ?thesis
  proof (cases p)
    case (Fulfilled v)
    obtain r w1 where a: "apply_type decorate k a v w = (r, w1)" by force
    from tasks_apply_type[OF a] a assms Deferred Fulfilled show ?thesis
      by (cases r)
         (auto simp: IsEntity_def promise_then_def promise_catch_def log_error_def addTask_def)
  next
    case (RejectedWith reason)
    with assms Deferred show ?thesis
      by (auto simp: IsEntity_def promise_then_def promise_catch_def log_error_def addTask_def)
  next
    case Pending
    with assms Deferred show ?thesis
      by (auto simp: IsEntity_def promise_then_def promise_catch_def log_error_def addTask_def)
  qed
qed

lemma declare_all_tasks:
  "declare_all decorate decls w = Inr w' \<Longrightarrow> list_all not_rejected (tasks w)
     \<Longrightarrow> list_all not_rejected (tasks w')"
proof (induction decls arbitrary: w)
  case Nil
  then show ?case by simp
next
  case (Cons d decls)
  obtain ref a k where d: "d = (ref, a, k)" by (cases d) auto
  from Cons.prems(1) d obtain w1 where s: "IsEntity decorate ref a k w = Inr w1"
    and r: "declare_all decorate decls w1 = Inr w'"
    by (auto split: sum.splits)
  from IsEntity_tasks[OF s] Cons.prems(2) have "list_all not_rejected (tasks w1)" by auto
  from Cons.IH[OF r this] show ?case .
qed

lemma declare_all_fulfilled:
  "declare_all decorate decls w = Inr w' \<Longrightarrow> list_all settles decls
     \<Longrightarrow> list_all (\<lambda>t. t = Fulfilled ()) (tasks w)
     \<Longrightarrow> list_all (\<lambda>t. t = Fulfilled ()) (tasks w')"
proof (induction decls arbitrary: w)
  case Nil
  then show ?case by simp
next
  case (Cons d decls)
  obtain ref a k where d: "d = (ref, a, k)" by (cases d) auto
  from Cons.prems(1) d obtain w1 where s: "IsEntity decorate ref a k w = Inr w1"
    and r: "declare_all decorate decls w1 = Inr w'"
    by (auto split: sum.splits)
  from Cons.prems(2) d have st: "settles (ref, a, k)" and rest: "list_all settles decls" by auto
  from IsEntity_tasks[OF s] st Cons.prems(3)
  have "list_all (\<lambda>t. t = Fulfilled ()) (tasks w1)" by auto
  from Cons.IH[OF r rest this] show ?case .
qed

lemma Promise_all_not_rejected:
  "list_all not_rejected ps \<Longrightarrow> not_rejected (Promise_all ps)"
  by (induction ps) (auto split: promise.splits)

lemma Promise_all_fulfilled:
  "list_all (\<lambda>t. t = Fulfilled ()) ps \<Longrightarrow> \<exists>vs. Promise_all ps = Fulfilled vs"
  by (induction ps) (auto split: promise.splits)

text \<open>
  C8. \<^verbatim>\<open>resolveAll\<close> never raises the failure of a task queued by \<^verbatim>\<open>IsEntity\<close> again.
  Starting without tasks, after any sequence of \<^verbatim>\<open>IsEntity\<close> decorators no task is
  rejected (a rejection of the type promise, or a throw of the callback, is caught, logged
  and turned into a fulfilled task), so the promise of \<^verbatim>\<open>resolveAll\<close> is not rejected; and
  when every type promise settles, it is fulfilled, whether the promises were fulfilled or
  rejected.
\<close>

theorem resolveAll_never_rejects:
  assumes run: "declare_all decorate decls w0 = Inr w"
    and start: "tasks w0 = []"
  shows "list_all not_rejected (tasks w)
         \<and> not_rejected (resolveAll w)
         \<and> (list_all settles decls \<longrightarrow> resolveAll w = Fulfilled ())
         \<and> IsEntity decorate (Deferred (RejectedWith reason)) is_array key v
           = Inr (v\<lparr>tasks := tasks v @ [Fulfilled ()],
                     console := console v @ [(''Error resolving type for property :'' @ key, reason)]\<rparr>)"
proof -
  from declare_all_tasks[OF run] start have ok: "list_all not_rejected (tasks w)" by simp
  from Promise_all_not_rejected[OF ok] have nr: "not_rejected (resolveAll w)"
    by (cases "Promise_all (tasks w)") (auto simp: resolveAll_def)
  have "resolveAll w = Fulfilled ()" if "list_all settles decls"
  proof -
    from declare_all_fulfilled[OF run that] start
    have "list_all (\<lambda>t. t = Fulfilled ()) (tasks w)" by simp
    from Promise_all_fulfilled[OF this] show ?thesis by (auto simp: resolveAll_def)
  qed
  moreover have "IsEntity decorate (Deferred (RejectedWith reason)) is_array key v
           = Inr (v\<lparr>tasks := tasks v @ [Fulfilled ()],
                     console := console v @ [(''Error resolving type for property :'' @ key, reason)]\<rparr>)"
    by (simp add: IsEntity_def promise_then_def promise_catch_def log_error_def addTask_def)
  ultimately show ?thesis using ok nr by simp
qed

lemmas promise_defs = IsEntity_def promise_then_def promise_catch_def apply_type_def
  ApplyJsonSchemaType_def log_error_def addTask_def resolveAll_def empty_registry_def quiet_def

text \<open>One type promise is rejected: the failure is logged, and the batch is fulfilled all the same.\<close>

theorem resolveAll_never_rejects_witness:
  "map_sum id tasks (declare_all quiet
       [(Deferred (Fulfilled (Some 1)), False, ''owner''),
        (Deferred (RejectedWith ''module not found''), True, ''items'')] empty_registry)
     = Inr [Fulfilled (), Fulfilled ()]
   \<and> map_sum id console (declare_all quiet
       [(Deferred (Fulfilled (Some 1)), False, ''owner''),
        (Deferred (RejectedWith ''module not found''), True, ''items'')] empty_registry)
     = Inr [(''Error resolving type for property :items'', ''module not found'')]
   \<and> map_sum id resolveAll (declare_all quiet
       [(Deferred (Fulfilled (Some 1)), False, ''owner''),
        (Deferred (RejectedWith ''module not found''), True, ''items'')] empty_registry)
     = Inr (Fulfilled ())
   \<and> map_sum id resolveAll (declare_all quiet
       [(Deferred (Fulfilled (Some 1)), False, ''owner''),
        (Deferred (Fulfilled (Some 2)), True, ''items'')] empty_registry)
     = Inr (Fulfilled ())"
proof -
  let ?decls = "[(Deferred (Fulfilled (Some (1::nat))), False, ''owner''),
        (Deferred (RejectedWith ''module not found''), True, ''items'')]"
  obtain w where run: "declare_all quiet ?decls empty_registry = Inr w"
    by (simp add: promise_defs)
  have start: "tasks (empty_registry :: nat registry) = []" by (simp add: empty_registry_def)
  have st: "list_all settles ?decls" by simp
  from resolveAll_never_rejects[OF run start] st have "resolveAll w = Fulfilled ()" by blast
  with run have a: "map_sum id resolveAll (declare_all quiet ?decls empty_registry)
     = Inr (Fulfilled ())" by simp
  have b: "map_sum id tasks (declare_all quiet ?decls empty_registry)
     = Inr [Fulfilled (), Fulfilled ()]"
    "map_sum id console (declare_all quiet ?decls empty_registry)
     = Inr [(''Error resolving type for property :items'', ''module not found'')]"
    "map_sum id resolveAll (declare_all quiet
       [(Deferred (Fulfilled (Some 1)), False, ''owner''),
        (Deferred (Fulfilled (Some 2)), True, ''items'')] empty_registry)
     = Inr (Fulfilled ())"
    by (simp_all add: promise_defs)
  from a b show ?thesis by simp
qed

end
